theory Spec2Isabelle
  imports Main
begin

section \<open>Values exchanged by the program\<close>

text \<open>
  The module \<^verbatim>\<open>src/workerHelpers.js\<close> runs on both sides of a worker boundary. The
  values it handles without ever looking inside (the WebAssembly module, its memory, the
  receiver handed out by the pool builder) are opaque handles. The \<^verbatim>\<open>data\<close> of a
  message event is either \<^verbatim>\<open>null\<close>/\<^verbatim>\<open>undefined\<close> or an object whose \<^verbatim>\<open>type\<close>,
  \<^verbatim>\<open>init\<close> and \<^verbatim>\<open>receiver\<close> properties may each be missing; a \<^verbatim>\<open>type\<close> that is
  not a string can never be \<^verbatim>\<open>===\<close> to the awaited type and is modelled as missing.
\<close>

type_synonym handle = nat

datatype data =
    Nullish
  | Obj (type_field: "string option") (init_field: "(handle \<times> handle) option")
      (receiver_field: "handle option")

text \<open>\<^verbatim>\<open>data?.type\<close>\<close>

definition data_type :: "data \<Rightarrow> string option" where
  "data_type d = (case d of Nullish \<Rightarrow> None | Obj t i r \<Rightarrow> t)"

datatype js_error = JsError string

text \<open>A module namespace object, as returned by a dynamic \<^verbatim>\<open>import()\<close>.\<close>

datatype pkg = Pkg nat

text \<open>
  The object on which a listener is registered or \<^verbatim>\<open>postMessage\<close> is called: the
  worker's own global scope, or the k-th \<^verbatim>\<open>Worker\<close> object created by the host.
\<close>

datatype target = Self | WorkerHandle nat

text \<open>Everything the program does to its surroundings, in the order it does it.\<close>

datatype effect =
    AddListener target nat string
  | RemoveListener target nat
  | Resolve nat data
  | CallReceiver
  | CallNumThreads
  | NewWorker nat string string string
  | PostMessage target data
  | CallBuild
  | Return
  | Import string
  | Fetch string
  | InitSync pkg "(handle \<times> handle) option"
  | StartWorker pkg "handle option"

section \<open>waitForMsgType\<close>

text \<open>
  An execution context keeps the registered \<^verbatim>\<open>message\<close> listeners (the target, the
  identity of the closure \<^verbatim>\<open>onMsg\<close>, which is also the identity of the promise it
  resolves, and the \<^verbatim>\<open>type\<close> the closure captured), a counter for fresh identities and
  the trace of effects.
\<close>

record hub =
  listeners :: "(target \<times> nat \<times> string) list"
  fresh :: nat
  trace :: "effect list"

text \<open>
  \<^verbatim>\<open>new Promise(resolve => { target.addEventListener('message', function onMsg ...) })\<close>:
  the executor runs at once and registers the listener; the promise is returned.
\<close>

definition waitForMsgType :: "target \<Rightarrow> string \<Rightarrow> 'a hub_scheme \<Rightarrow> nat \<times> 'a hub_scheme" where
  "waitForMsgType tgt ty h =
     (fresh h,
      h\<lparr>listeners := listeners h @ [(tgt, fresh h, ty)],
        fresh := Suc (fresh h),
        trace := trace h @ [AddListener tgt (fresh h) ty]\<rparr>)"

text \<open>
  The body of \<^verbatim>\<open>onMsg\<close>: return on any other type, else deregister and resolve.
\<close>

definition onMsg :: "target \<Rightarrow> nat \<Rightarrow> string \<Rightarrow> data \<Rightarrow> 'a hub_scheme \<Rightarrow> 'a hub_scheme" where
  "onMsg tgt p ty d h =
     (if data_type d \<noteq> Some ty then h
      else h\<lparr>listeners := removeAll (tgt, p, ty) (listeners h),
             trace := trace h @ [RemoveListener tgt p, Resolve p d]\<rparr>)"

text \<open>
  Dispatching a message event on a target calls the listeners registered on it when the
  dispatch starts, in order of registration, skipping one that has been removed meanwhile.
\<close>

definition dispatch :: "target \<Rightarrow> data \<Rightarrow> 'a hub_scheme \<Rightarrow> 'a hub_scheme" where
  "dispatch tgt d h =
     foldl (\<lambda>h' (t, p, ty).
              if t = tgt \<and> (t, p, ty) \<in> set (listeners h') then onMsg t p ty d h' else h')
           h (listeners h)"

definition deliver :: "'a hub_scheme \<Rightarrow> (target \<times> data) list \<Rightarrow> 'a hub_scheme" where
  "deliver h ms = foldl (\<lambda>h' (t, d). dispatch t d h') h ms"

text \<open>
  The calls of \<^verbatim>\<open>resolve\<close> made for promise \<open>p\<close>, in order. A promise takes the value
  of the first call and ignores the later ones.
\<close>

fun resolutions :: "nat \<Rightarrow> effect list \<Rightarrow> data list" where
  "resolutions p [] = []"
| "resolutions p (Resolve q d # es) = (if q = p then d # resolutions p es else resolutions p es)"
| "resolutions p (e # es) = resolutions p es"

definition settled :: "nat \<Rightarrow> effect list \<Rightarrow> data option" where
  "settled p es = (case resolutions p es of [] \<Rightarrow> None | d # ds \<Rightarrow> Some d)"

text \<open>Identities handed out so far are below the counter.\<close>

fun effect_below :: "nat \<Rightarrow> effect \<Rightarrow> bool" where
  "effect_below n (Resolve q d) = (q < n)"
| "effect_below n e = True"

definition hub_ok :: "'a hub_scheme \<Rightarrow> bool" where
  "hub_ok h = (list_all (\<lambda>(t, q, ty). q < fresh h) (listeners h)
               \<and> list_all (effect_below (fresh h)) (trace h))"

text \<open>The first message on target \<open>tgt\<close> whose type is \<open>ty\<close>.\<close>

fun first_match :: "target \<Rightarrow> string \<Rightarrow> (target \<times> data) list \<Rightarrow> data option" where
  "first_match tgt ty [] = None"
| "first_match tgt ty ((t, d) # ms) =
     (if t = tgt \<and> data_type d = Some ty then Some d else first_match tgt ty ms)"

section \<open>The two regular expressions\<close>

text \<open>
  \<^verbatim>\<open>String.prototype.match\<close> with a regular expression without the \<^verbatim>\<open>g\<close> flag returns
  the leftmost match, found by backtracking with greedy quantifiers, or \<^verbatim>\<open>null\<close>. Both
  patterns of the program are sequences of single-character atoms, each with a quantifier,
  and one capture group around one of them, so a pattern is a list of pieces; the flag of
  a piece says whether it lies inside the capture group. Texts are strings of 8-bit
  characters: the pages and scripts covered are those whose code units are below 256.
\<close>

datatype atom = Lit char | Space | OneOf "char list" | NoneOf "char list"

datatype quant = Once | Opt | Star | Plus

datatype piece = Piece atom quant bool

text \<open>
  Under the \<^verbatim>\<open>i\<close> flag two characters match when their upper-case forms agree. The
  patterns contain ASCII letters only, and no character outside ASCII has an ASCII
  upper-case form in a pattern without the \<^verbatim>\<open>u\<close> flag, so only a to z are mapped.
\<close>

definition upper :: "char \<Rightarrow> char" where
  "upper c =
     (case map_of (zip ''abcdefghijklmnopqrstuvwxyz'' ''ABCDEFGHIJKLMNOPQRSTUVWXYZ'') c of
        Some u \<Rightarrow> u
      | None \<Rightarrow> c)"

text \<open>The characters of \<^verbatim>\<open>\s\<close> among the first 256: TAB, LF, VT, FF, CR, space, NBSP.\<close>

definition white_space :: "char list" where
  "white_space = [CHR 0x09, CHR 0x0A, CHR 0x0B, CHR 0x0C, CHR 0x0D, CHR 0x20, CHR 0xA0]"

fun accepts :: "bool \<Rightarrow> atom \<Rightarrow> char \<Rightarrow> bool" where
  "accepts ci (Lit x) c = (if ci then upper c = upper x else c = x)"
| "accepts ci Space c = (c \<in> set white_space)"
| "accepts ci (OneOf cs) c = (if ci then upper c \<in> upper ` set cs else c \<in> set cs)"
| "accepts ci (NoneOf cs) c = (\<not> (if ci then upper c \<in> upper ` set cs else c \<in> set cs))"

definition keep :: "bool \<Rightarrow> char \<Rightarrow> string \<Rightarrow> string" where
  "keep g c cap = (if g then c # cap else cap)"

text \<open>
  \<open>bt ci ps s cap\<close> matches the pieces \<open>ps\<close> at the start of \<open>s\<close> and returns the text
  of the capture group; \<open>cap\<close> is the captured text so far, reversed. A quantified piece
  takes as many characters as it can and gives them back one at a time when the rest of
  the pattern fails.
\<close>

fun bt :: "bool \<Rightarrow> piece list \<Rightarrow> string \<Rightarrow> string \<Rightarrow> string option" where
  "bt ci [] s cap = Some (rev cap)"
| "bt ci (Piece a Once g # ps) [] cap = None"
| "bt ci (Piece a Once g # ps) (c # cs) cap =
     (if accepts ci a c then bt ci ps cs (keep g c cap) else None)"
| "bt ci (Piece a Opt g # ps) [] cap = bt ci ps [] cap"
| "bt ci (Piece a Opt g # ps) (c # cs) cap =
     (if accepts ci a c
      then (case bt ci ps cs (keep g c cap) of
              Some r \<Rightarrow> Some r
            | None \<Rightarrow> bt ci ps (c # cs) cap)
      else bt ci ps (c # cs) cap)"
| "bt ci (Piece a Star g # ps) [] cap = bt ci ps [] cap"
| "bt ci (Piece a Star g # ps) (c # cs) cap =
     (if accepts ci a c
      then (case bt ci (Piece a Star g # ps) cs (keep g c cap) of
              Some r \<Rightarrow> Some r
            | None \<Rightarrow> bt ci ps (c # cs) cap)
      else bt ci ps (c # cs) cap)"
| "bt ci (Piece a Plus g # ps) [] cap = None"
| "bt ci (Piece a Plus g # ps) (c # cs) cap =
     (if accepts ci a c then bt ci (Piece a Star g # ps) cs (keep g c cap) else None)"

text \<open>The leftmost match: try every start position from the left.\<close>

fun search :: "bool \<Rightarrow> piece list \<Rightarrow> string \<Rightarrow> string option" where
  "search ci ps [] = bt ci ps [] []"
| "search ci ps (c # cs) =
     (case bt ci ps (c # cs) [] of Some r \<Rightarrow> Some r | None \<Rightarrow> search ci ps cs)"

definition lits :: "string \<Rightarrow> piece list" where
  "lits s = map (\<lambda>c. Piece (Lit c) Once False) s"

text \<open>The class \<^verbatim>\<open>['"]\<close>.\<close>

definition quotes :: "char list" where
  "quotes = [CHR 0x27, CHR 0x22]"

text \<open>\<^verbatim>\<open>/<script\s+src=['"]([^'"]+)['"]\s+type\s*=\s*['"]?module/i\<close>\<close>

definition script_re :: "piece list" where
  "script_re =
     lits ''<script'' @ [Piece Space Plus False] @ lits ''src=''
     @ [Piece (OneOf quotes) Once False, Piece (NoneOf quotes) Plus True,
        Piece (OneOf quotes) Once False, Piece Space Plus False]
     @ lits ''type'' @ [Piece Space Star False] @ lits ''='' @ [Piece Space Star False]
     @ [Piece (OneOf quotes) Opt False] @ lits ''module''"

text \<open>\<^verbatim>\<open>/from\s+['"]\.\/([^'"]+)['"]/\<close>\<close>

definition from_re :: "piece list" where
  "from_re =
     lits ''from'' @ [Piece Space Plus False, Piece (OneOf quotes) Once False]
     @ lits ''./'' @ [Piece (NoneOf quotes) Plus True, Piece (OneOf quotes) Once False]"

text \<open>
  \<open>skipped ci ps pre rest\<close>: in the text \<open>pre @ rest\<close> the pattern matches at no position
  inside \<open>pre\<close>, so the leftmost match, if any, starts in \<open>rest\<close>.
\<close>

fun skipped :: "bool \<Rightarrow> piece list \<Rightarrow> string \<Rightarrow> string \<Rightarrow> bool" where
  "skipped ci ps [] rest = True"
| "skipped ci ps (c # cs) rest = (bt ci ps (c # cs @ rest) [] = None \<and> skipped ci ps cs rest)"

section \<open>resolveMainModule\<close>

text \<open>
  What the platform answers: the URL of this module (\<^verbatim>\<open>import.meta.url\<close>), the outcome
  of a dynamic \<^verbatim>\<open>import()\<close> of a specifier, of \<^verbatim>\<open>new URL(rel, base).href\<close>, of
  \<^verbatim>\<open>fetch(url)\<close> (a response, whose \<^verbatim>\<open>text()\<close> may fail in turn), and of the calls
  \<^verbatim>\<open>pkg.initSync(init)\<close> and \<^verbatim>\<open>pkg.wbg_rayon_start_worker(receiver)\<close>. \<open>Inl\<close> is
  the exception thrown or the rejection. A call of an export of the module has three
  outcomes: the export is not a function, so nothing is called and a TypeError is thrown;
  the function is entered and throws; the function is entered and does not throw (for
  the worker loop that includes never returning).
\<close>

datatype response = Response (body_text: "js_error + string")

datatype outcome = Absent | Throws js_error | Normal

record env =
  meta_url :: string
  dyn_import :: "string \<Rightarrow> js_error + pkg"
  new_URL :: "string \<Rightarrow> string \<Rightarrow> js_error + string"
  fetch :: "string \<Rightarrow> js_error + response"
  initSync :: "pkg \<Rightarrow> (handle \<times> handle) option \<Rightarrow> outcome"
  wbg_rayon_start_worker :: "pkg \<Rightarrow> handle option \<Rightarrow> outcome"

text \<open>\<^verbatim>\<open>await (await fetch(url)).text()\<close>\<close>

definition fetch_text :: "env \<Rightarrow> string \<Rightarrow> js_error + string" where
  "fetch_text E url = (case fetch E url of Inl x \<Rightarrow> Inl x | Inr resp \<Rightarrow> body_text resp)"

definition doing :: "effect \<Rightarrow> 'r \<times> effect list \<Rightarrow> 'r \<times> effect list" where
  "doing x res = (fst res, x # snd res)"

text \<open>
  The \<^verbatim>\<open>catch (e)\<close> block. An exception thrown inside it (by \<^verbatim>\<open>new URL\<close>, a fetch, a
  \<^verbatim>\<open>text()\<close> or the last import) leaves the function as it is; \<^verbatim>\<open>throw e\<close> is
  reached when one of the two searches finds nothing.
\<close>

definition scrape :: "env \<Rightarrow> js_error \<Rightarrow> (js_error + pkg) \<times> effect list" where
  "scrape E e =
     (case new_URL E ''../../..'' (meta_url E) of
        Inl x \<Rightarrow> (Inl x, [])
      | Inr rootUrl \<Rightarrow>
          doing (Fetch rootUrl)
            (case fetch_text E rootUrl of
               Inl x \<Rightarrow> (Inl x, [])
             | Inr html \<Rightarrow>
                 (case search True script_re html of
                    None \<Rightarrow> (Inl e, [])
                  | Some src \<Rightarrow>
                      (case new_URL E src rootUrl of
                         Inl x \<Rightarrow> (Inl x, [])
                       | Inr scriptUrl \<Rightarrow>
                           doing (Fetch scriptUrl)
                             (case fetch_text E scriptUrl of
                                Inl x \<Rightarrow> (Inl x, [])
                              | Inr runText \<Rightarrow>
                                  (case search False from_re runText of
                                     None \<Rightarrow> (Inl e, [])
                                   | Some chunk \<Rightarrow>
                                       (case new_URL E chunk rootUrl of
                                          Inl x \<Rightarrow> (Inl x, [])
                                        | Inr chunkUrl \<Rightarrow>
                                            doing (Import chunkUrl)
                                              (dyn_import E chunkUrl, []))))))))"

definition resolveMainModule :: "env \<Rightarrow> (js_error + pkg) \<times> effect list" where
  "resolveMainModule E =
     doing (Import ''../../..'')
       (case dyn_import E ''../../..'' of
          Inr m \<Rightarrow> (Inr m, [])
        | Inl e \<Rightarrow> scrape E e)"

text \<open>
  The same function one \<^verbatim>\<open>await\<close> at a time. Between two of its awaits the worker is
  free to handle other events, and what the function has already asked of the platform
  is already done. The function is suspended at \<^verbatim>\<open>await import('../../..')\<close>, at
  \<^verbatim>\<open>await fetch(rootUrl)\<close>, at \<^verbatim>\<open>await resp.text()\<close>, at \<^verbatim>\<open>await fetch(...)\<close> of
  the script, at \<^verbatim>\<open>await runJs.text()\<close>, or its promise follows the promise of
  \<^verbatim>\<open>import(...)\<close> of the chunk. A state keeps the variables still in use: \<^verbatim>\<open>e\<close>,
  \<^verbatim>\<open>rootUrl\<close>, the response or the URL awaited.
\<close>

datatype rstate =
    AwaitImport
  | AwaitFetchRoot js_error string
  | AwaitTextRoot js_error string response
  | AwaitFetchScript js_error string string
  | AwaitTextScript js_error string response
  | AwaitChunk string

datatype progress = More rstate | Done "js_error + pkg"

text \<open>
  Calling the function runs it up to its first await: the direct import is issued.
\<close>

definition resolver_begin :: "rstate \<times> effect list" where
  "resolver_begin = (AwaitImport, [Import ''../../..''])"

text \<open>
  The awaited promise settles and the function runs on to its next await, or to its end:
  the new state or the result, and the effects of that stretch.
\<close>

fun resolver_step :: "env \<Rightarrow> rstate \<Rightarrow> progress \<times> effect list" where
  "resolver_step E AwaitImport =
     (case dyn_import E ''../../..'' of
        Inr m \<Rightarrow> (Done (Inr m), [])
      | Inl e \<Rightarrow>
          (case new_URL E ''../../..'' (meta_url E) of
             Inl x \<Rightarrow> (Done (Inl x), [])
           | Inr rootUrl \<Rightarrow> (More (AwaitFetchRoot e rootUrl), [Fetch rootUrl])))"
| "resolver_step E (AwaitFetchRoot e rootUrl) =
     (case fetch E rootUrl of
        Inl x \<Rightarrow> (Done (Inl x), [])
      | Inr resp \<Rightarrow> (More (AwaitTextRoot e rootUrl resp), []))"
| "resolver_step E (AwaitTextRoot e rootUrl resp) =
     (case body_text resp of
        Inl x \<Rightarrow> (Done (Inl x), [])
      | Inr html \<Rightarrow>
          (case search True script_re html of
             None \<Rightarrow> (Done (Inl e), [])
           | Some src \<Rightarrow>
               (case new_URL E src rootUrl of
                  Inl x \<Rightarrow> (Done (Inl x), [])
                | Inr scriptUrl \<Rightarrow>
                    (More (AwaitFetchScript e rootUrl scriptUrl), [Fetch scriptUrl]))))"
| "resolver_step E (AwaitFetchScript e rootUrl scriptUrl) =
     (case fetch E scriptUrl of
        Inl x \<Rightarrow> (Done (Inl x), [])
      | Inr runJs \<Rightarrow> (More (AwaitTextScript e rootUrl runJs), []))"
| "resolver_step E (AwaitTextScript e rootUrl runJs) =
     (case body_text runJs of
        Inl x \<Rightarrow> (Done (Inl x), [])
      | Inr runText \<Rightarrow>
          (case search False from_re runText of
             None \<Rightarrow> (Done (Inl e), [])
           | Some chunk \<Rightarrow>
               (case new_URL E chunk rootUrl of
                  Inl x \<Rightarrow> (Done (Inl x), [])
                | Inr chunkUrl \<Rightarrow> (More (AwaitChunk chunkUrl), [Import chunkUrl]))))"
| "resolver_step E (AwaitChunk chunkUrl) = (Done (dyn_import E chunkUrl), [])"

text \<open>\<open>n\<close> settlements in a row, from state \<open>st\<close>: where the function stands and what it did.\<close>

fun advance :: "env \<Rightarrow> nat \<Rightarrow> rstate \<Rightarrow> progress \<times> effect list" where
  "advance E 0 st = (More st, [])"
| "advance E (Suc n) st =
     (case resolver_step E st of
        (p, es) \<Rightarrow>
          (case p of
             Done r \<Rightarrow> (Done r, es)
           | More st' \<Rightarrow> (case advance E n st' of (q, es') \<Rightarrow> (q, es @ es'))))"

section \<open>The worker side\<close>

text \<open>
  The global \<^verbatim>\<open>name\<close> read by the module's top level: not declared at all (reading it
  throws a ReferenceError), a value that is not a string, or a string.
\<close>

datatype global_name = Unbound | NotString | Name string

text \<open>
  Where the chain \<^verbatim>\<open>waitForMsgType(self, ...).then(async data => ...)\<close> stands: not
  installed, waiting for the promise of the waiter, suspended at
  \<^verbatim>\<open>await resolveMainModule()\<close> with the data received and the state of that call,
  inside \<^verbatim>\<open>wbg_rayon_start_worker\<close> or past it, or stopped by an exception.
\<close>

datatype phase =
    Inert
  | AwaitingInit nat
  | Resolving data rstate
  | Running pkg
  | Failed js_error

record worker = hub +
  phase :: phase

text \<open>Evaluating the module's top level in a context whose global \<^verbatim>\<open>name\<close> is \<open>g\<close>.\<close>

definition load_module :: "global_name \<Rightarrow> js_error + worker" where
  "load_module g =
     (case g of
        Unbound \<Rightarrow> Inl (JsError ''ReferenceError: name is not defined'')
      | _ \<Rightarrow>
          (let w0 = \<lparr>listeners = [], fresh = 0, trace = [], phase = Inert\<rparr> in
           if g = Name ''wasm_bindgen_worker''
           then (case waitForMsgType Self ''wasm_bindgen_worker_init'' w0 of
                   (p, w1) \<Rightarrow> Inr (w1\<lparr>phase := AwaitingInit p\<rparr>))
           else Inr w0))"

text \<open>
  Once the promise of the waiter is resolved, the \<^verbatim>\<open>then\<close> callback runs among the
  microtasks of the same task: it calls \<^verbatim>\<open>resolveMainModule()\<close>, which issues the
  direct import and suspends.
\<close>

definition on_resolved :: "worker \<Rightarrow> worker" where
  "on_resolved w =
     (case phase w of
        AwaitingInit p \<Rightarrow>
          (case settled p (trace w) of
             None \<Rightarrow> w
           | Some d \<Rightarrow>
               w\<lparr>trace := trace w @ snd resolver_begin,
                 phase := Resolving d (fst resolver_begin)\<rparr>)
      | _ \<Rightarrow> w)"

text \<open>
  The rest of the callback, once \<^verbatim>\<open>resolveMainModule()\<close> has ended with \<open>res\<close>:
  \<^verbatim>\<open>pkg.initSync(data.init); postMessage({ type: 'wasm_bindgen_worker_ready' });
  pkg.wbg_rayon_start_worker(data.receiver)\<close>. The effects \<open>InitSync\<close> and
  \<open>StartWorker\<close> say that the function was entered.
\<close>

definition bootstrap :: "env \<Rightarrow> data \<Rightarrow> js_error + pkg \<Rightarrow> worker \<Rightarrow> worker" where
  "bootstrap E d res w =
     (case res of
        Inl x \<Rightarrow> w\<lparr>phase := Failed x\<rparr>
      | Inr m \<Rightarrow>
          (case d of
             Nullish \<Rightarrow> w\<lparr>phase := Failed (JsError ''TypeError'')\<rparr>
           | Obj ty i rcv \<Rightarrow>
               (case initSync E m i of
                  Absent \<Rightarrow> w\<lparr>phase := Failed (JsError ''TypeError'')\<rparr>
                | Throws x \<Rightarrow> w\<lparr>trace := trace w @ [InitSync m i], phase := Failed x\<rparr>
                | Normal \<Rightarrow>
                    (let w1 = w\<lparr>trace := trace w @
                                 [InitSync m i,
                                  PostMessage Self
                                    (Obj (Some ''wasm_bindgen_worker_ready'') None None)]\<rparr>
                     in case wbg_rayon_start_worker E m rcv of
                          Absent \<Rightarrow> w1\<lparr>phase := Failed (JsError ''TypeError'')\<rparr>
                        | Throws x \<Rightarrow>
                            w1\<lparr>trace := trace w1 @ [StartWorker m rcv], phase := Failed x\<rparr>
                        | Normal \<Rightarrow>
                            w1\<lparr>trace := trace w1 @ [StartWorker m rcv],
                               phase := Running m\<rparr>))))"

text \<open>
  What can happen to a worker: a message event on its global scope, or the promise that
  \<^verbatim>\<open>resolveMainModule()\<close> is awaiting settles. The second has an effect only while that
  call is under way; when it ends the call, the rest of the callback runs in the same
  task.
\<close>

datatype wevent = Message data | Settled

definition worker_step :: "env \<Rightarrow> worker \<Rightarrow> wevent \<Rightarrow> worker" where
  "worker_step E w ev =
     (case ev of
        Message d \<Rightarrow> on_resolved (dispatch Self d w)
      | Settled \<Rightarrow>
          (case phase w of
             Resolving d st \<Rightarrow>
               (case resolver_step E st of
                  (p, es) \<Rightarrow>
                    (case p of
                       More st' \<Rightarrow> w\<lparr>trace := trace w @ es, phase := Resolving d st'\<rparr>
                     | Done res \<Rightarrow> bootstrap E d res (w\<lparr>trace := trace w @ es\<rparr>)))
           | _ \<Rightarrow> w))"

definition worker_run :: "env \<Rightarrow> worker \<Rightarrow> wevent list \<Rightarrow> worker" where
  "worker_run E w evs = foldl (worker_step E) w evs"

section \<open>startWorkers\<close>

text \<open>
  What the pool builder answers to \<^verbatim>\<open>numThreads()\<close> (a count, which becomes the
  \<^verbatim>\<open>length\<close> given to \<^verbatim>\<open>Array.from\<close>) and to \<^verbatim>\<open>receiver()\<close>. The
  function has no \<^verbatim>\<open>try\<close> and no \<^verbatim>\<open>throw\<close>; the calls it makes into the builder and
  the platform (\<^verbatim>\<open>new Worker\<close>, \<^verbatim>\<open>postMessage\<close>) are taken to return normally. The
  host runs one task at a time: the events that reach the function are the message
  events on its workers, each followed by the microtasks it has made ready.
\<close>

record builder =
  numThreads :: nat
  receiver :: handle

datatype status = Pending | Fulfilled

text \<open>
  The host context: the hub, the promises of the waiters that the callbacks given to
  \<^verbatim>\<open>Array.from\<close> are suspended on (\<^verbatim>\<open>Promise.all\<close> is fulfilled when each callback
  has returned, that is when each of these is resolved), and the state of the promise
  that \<^verbatim>\<open>startWorkers\<close> returned.
\<close>

record host = hub +
  awaited :: "nat list"
  status :: status

text \<open>
  The k-th call of the \<^verbatim>\<open>async () => { ... }\<close> callback, up to its \<^verbatim>\<open>await\<close>:
  \<^verbatim>\<open>new Worker(new URL('./workerHelpers.js', import.meta.url),
  { type: 'module', name: 'wasm_bindgen_worker' })\<close>, \<^verbatim>\<open>worker.postMessage(workerInit)\<close>,
  \<^verbatim>\<open>waitForMsgType(worker, 'wasm_bindgen_worker_ready')\<close>.
\<close>

definition spawn :: "data \<Rightarrow> host \<Rightarrow> nat \<Rightarrow> host" where
  "spawn workerInit h k =
     (let h1 = h\<lparr>trace := trace h @
                   [NewWorker k ''./workerHelpers.js'' ''module'' ''wasm_bindgen_worker'',
                    PostMessage (WorkerHandle k) workerInit]\<rparr>
      in case waitForMsgType (WorkerHandle k) ''wasm_bindgen_worker_ready'' h1 of
           (p, h2) \<Rightarrow> h2\<lparr>awaited := awaited h2 @ [p]\<rparr>)"

text \<open>The synchronous part of \<^verbatim>\<open>startWorkers\<close>, up to \<^verbatim>\<open>await Promise.all(...)\<close>.\<close>

definition startWorkers_sync :: "handle \<Rightarrow> handle \<Rightarrow> builder \<Rightarrow> host" where
  "startWorkers_sync module memory b =
     (let workerInit =
            Obj (Some ''wasm_bindgen_worker_init'') (Some (module, memory)) (Some (receiver b));
          h0 = \<lparr>listeners = [], fresh = 0, trace = [CallReceiver, CallNumThreads],
                awaited = [], status = Pending\<rparr>
      in foldl (spawn workerInit) h0 [0..<numThreads b])"

text \<open>
  The rest of \<^verbatim>\<open>startWorkers\<close>, run as soon as \<^verbatim>\<open>Promise.all\<close> is fulfilled:
  \<^verbatim>\<open>builder.build()\<close>, then the function returns and its promise is fulfilled.
\<close>

definition resume :: "host \<Rightarrow> host" where
  "resume h =
     (if status h = Pending \<and> list_all (\<lambda>p. settled p (trace h) \<noteq> None) (awaited h)
      then h\<lparr>trace := trace h @ [CallBuild, Return], status := Fulfilled\<rparr>
      else h)"

definition startWorkers :: "handle \<Rightarrow> handle \<Rightarrow> builder \<Rightarrow> host" where
  "startWorkers module memory b = resume (startWorkers_sync module memory b)"

text \<open>A message event from worker \<open>k\<close> arrives at the host; then the microtasks run.\<close>

definition host_step :: "host \<Rightarrow> nat \<times> data \<Rightarrow> host" where
  "host_step h ev = resume (dispatch (WorkerHandle (fst ev)) (snd ev) h)"

definition host_run :: "host \<Rightarrow> (nat \<times> data) list \<Rightarrow> host" where
  "host_run h evs = foldl host_step h evs"

text \<open>Worker \<open>k\<close> has sent a ready message among the events \<open>evs\<close>.\<close>

definition ready_from :: "nat \<Rightarrow> (nat \<times> data) list \<Rightarrow> bool" where
  "ready_from k evs =
     list_ex (\<lambda>ev. fst ev = k \<and> data_type (snd ev) = Some ''wasm_bindgen_worker_ready'') evs"

definition all_ready :: "nat \<Rightarrow> (nat \<times> data) list \<Rightarrow> bool" where
  "all_ready n evs = list_all (\<lambda>k. ready_from k evs) [0..<n]"

section \<open>Vocabulary of the proofs\<close>

text \<open>The listeners registered for promise \<open>p\<close>.\<close>

definition waiters :: "nat \<Rightarrow> 'a hub_scheme \<Rightarrow> (target \<times> nat \<times> string) list" where
  "waiters p h = filter (\<lambda>x. fst (snd x) = p) (listeners h)"

text \<open>One round of the loop of \<open>dispatch\<close>.\<close>

definition call_listener :: "target \<Rightarrow> data \<Rightarrow> 'a hub_scheme \<Rightarrow> target \<times> nat \<times> string \<Rightarrow> 'a hub_scheme" where
  "call_listener tgt d h x =
     (case x of (t, q, ty) \<Rightarrow>
        if t = tgt \<and> (t, q, ty) \<in> set (listeners h) then onMsg t q ty d h else h)"

text \<open>An execution context in which nothing has run yet.\<close>

definition empty_hub :: hub where
  "empty_hub = \<lparr>listeners = [], fresh = 0, trace = []\<rparr>"

text \<open>
  The messages of the scenario "x, y, init, init" on one endpoint; the two init messages
  differ in their payload.
\<close>

definition xy_init_init :: "(target \<times> data) list" where
  "xy_init_init =
     [(Self, Obj (Some ''x'') None None), (Self, Nullish), (Self, Obj (Some ''y'') None None),
      (Self, Obj (Some ''init'') (Some (1, 2)) (Some 3)),
      (Self, Obj (Some ''init'') (Some (4, 5)) (Some 6))]"

text \<open>
  The effects of a listener: deregistration and resolution. A dispatch adds only these
  to the trace, removes listeners and never adds one.
\<close>

fun waiter_effect :: "effect \<Rightarrow> bool" where
  "waiter_effect (RemoveListener t p) = True"
| "waiter_effect (Resolve p d) = True"
| "waiter_effect e = False"

definition grown :: "'a hub_scheme \<Rightarrow> 'a hub_scheme \<Rightarrow> bool" where
  "grown h h' = (hub.more h' = hub.more h \<and> fresh h' = fresh h
     \<and> set (listeners h') \<subseteq> set (listeners h)
     \<and> (\<exists>es. trace h' = trace h @ es \<and> list_all waiter_effect es))"

text \<open>
  The host after the first \<open>n\<close> callbacks of \<^verbatim>\<open>Array.from\<close> have run: one listener and
  one awaited promise per worker, and three effects per worker in the trace.
\<close>

definition init_msg :: "handle \<Rightarrow> handle \<Rightarrow> builder \<Rightarrow> data" where
  "init_msg module memory b =
     Obj (Some ''wasm_bindgen_worker_init'') (Some (module, memory)) (Some (receiver b))"

definition spawn_effects :: "data \<Rightarrow> nat \<Rightarrow> effect list" where
  "spawn_effects wi k =
     [NewWorker k ''./workerHelpers.js'' ''module'' ''wasm_bindgen_worker'',
      PostMessage (WorkerHandle k) wi,
      AddListener (WorkerHandle k) k ''wasm_bindgen_worker_ready'']"

definition spawned :: "data \<Rightarrow> nat \<Rightarrow> host" where
  "spawned wi n =
     \<lparr>listeners = map (\<lambda>k. (WorkerHandle k, k, ''wasm_bindgen_worker_ready'')) [0..<n],
      fresh = n,
      trace = [CallReceiver, CallNumThreads] @ concat (map (spawn_effects wi) [0..<n]),
      awaited = [0..<n],
      status = Pending\<rparr>"

text \<open>
  The message events of the host as \<open>deliver\<close> takes them.
\<close>

definition inbox :: "(nat \<times> data) list \<Rightarrow> (target \<times> data) list" where
  "inbox evs = map (\<lambda>ev. (WorkerHandle (fst ev), snd ev)) evs"

text \<open>
  \<open>quiet\<close>: neither \<^verbatim>\<open>builder.build()\<close> nor the return of \<^verbatim>\<open>startWorkers\<close>.
  \<open>later_effect\<close>: what can follow the synchronous part of \<^verbatim>\<open>startWorkers\<close>.
\<close>

fun quiet :: "effect \<Rightarrow> bool" where
  "quiet CallBuild = False"
| "quiet Return = False"
| "quiet e = True"

fun later_effect :: "effect \<Rightarrow> bool" where
  "later_effect (RemoveListener t p) = True"
| "later_effect (Resolve p d) = True"
| "later_effect CallBuild = True"
| "later_effect Return = True"
| "later_effect e = False"

definition host_grown :: "host \<Rightarrow> host \<Rightarrow> bool" where
  "host_grown h h' = (awaited h' = awaited h \<and> set (listeners h') \<subseteq> set (listeners h)
     \<and> (\<exists>es. trace h' = trace h @ es \<and> list_all later_effect es))"

text \<open>
  The \<^verbatim>\<open>new Worker\<close> calls of a trace (index, script, \<^verbatim>\<open>type\<close>, \<^verbatim>\<open>name\<close>) and
  its \<^verbatim>\<open>postMessage\<close> calls, in order.
\<close>

fun workers :: "effect list \<Rightarrow> (nat \<times> string \<times> string \<times> string) list" where
  "workers [] = []"
| "workers (NewWorker k u t n # es) = (k, u, t, n) # workers es"
| "workers (e # es) = workers es"

fun posts :: "effect list \<Rightarrow> (target \<times> data) list" where
  "posts [] = []"
| "posts (PostMessage t d # es) = (t, d) # posts es"
| "posts (e # es) = posts es"

text \<open>
  The worker right after the module's top level has run under the name
  \<^verbatim>\<open>wasm_bindgen_worker\<close>, a context in which it has installed nothing, and the worker
  at the end of the task of the init message \<open>d\<close>: the waiter is resolved and the
  callback has called \<^verbatim>\<open>resolveMainModule()\<close>, which has issued the direct import.
\<close>

definition loaded :: worker where
  "loaded = \<lparr>listeners = [(Self, 0, ''wasm_bindgen_worker_init'')], fresh = 1,
             trace = [AddListener Self 0 ''wasm_bindgen_worker_init''], phase = AwaitingInit 0\<rparr>"

definition idle :: worker where
  "idle = \<lparr>listeners = [], fresh = 0, trace = [], phase = Inert\<rparr>"

definition received :: "data \<Rightarrow> worker" where
  "received d = \<lparr>listeners = [], fresh = 1,
             trace = [AddListener Self 0 ''wasm_bindgen_worker_init'', RemoveListener Self 0,
                      Resolve 0 d, Import ''../../..''],
             phase = Resolving d AwaitImport\<rparr>"

text \<open>
  The first init message among the events of a worker, with the events after it.
\<close>

fun after_init :: "wevent list \<Rightarrow> (data \<times> wevent list) option" where
  "after_init [] = None"
| "after_init (Message d # evs) =
     (if data_type d = Some ''wasm_bindgen_worker_init'' then Some (d, evs) else after_init evs)"
| "after_init (Settled # evs) = after_init evs"

text \<open>The effects of the module resolution.\<close>

fun fetching :: "effect \<Rightarrow> bool" where
  "fetching (Import u) = True"
| "fetching (Fetch u) = True"
| "fetching e = False"

section \<open>Concrete inputs\<close>

text \<open>
  Builders, message sequences, pages and platforms at which the theorems below are
  instantiated. \<open>served html js\<close> is a bare static server on
  \<^verbatim>\<open>http://localhost:1334/\<close>: the import of the root URL fails, the root URL serves the
  page \<open>html\<close>, \<^verbatim>\<open>/app-abcd.js\<close> serves the text \<open>js\<close>, and only
  \<^verbatim>\<open>/chunk-123.js\<close> can be imported.
\<close>

definition two_threads :: builder where
  "two_threads = \<lparr>numThreads = 2, receiver = 9\<rparr>"

definition no_threads :: builder where
  "no_threads = \<lparr>numThreads = 0, receiver = 9\<rparr>"

definition ready_msg :: data where
  "ready_msg = Obj (Some ''wasm_bindgen_worker_ready'') None None"

definition both_ready :: "(nat \<times> data) list" where
  "both_ready = [(1, ready_msg), (0, Obj (Some ''x'') None None), (1, ready_msg), (0, ready_msg)]"

definition one_ready :: "(nat \<times> data) list" where
  "one_ready = [(1, ready_msg), (0, Nullish), (1, ready_msg), (0, Obj (Some ''x'') None None)]"

definition served :: "string \<Rightarrow> string \<Rightarrow> env" where
  "served html js =
     \<lparr>meta_url = ''http://localhost:1334/snippets/wasm-bindgen-rayon-38edf6e439f6d70d/src/workerHelpers.js'',
      dyn_import = (\<lambda>s. if s = ''http://localhost:1334/chunk-123.js'' then Inr (Pkg 1)
                         else Inl (JsError ''import failed'')),
      new_URL = (\<lambda>rel base. if rel = ''../../..'' then Inr ''http://localhost:1334/''
                         else Inr (''http://localhost:1334/'' @ dropWhile (\<lambda>c. c = CHR ''/'') rel)),
      fetch = (\<lambda>u. if u = ''http://localhost:1334/'' then Inr (Response (Inr html))
                    else if u = ''http://localhost:1334/app-abcd.js'' then Inr (Response (Inr js))
                    else Inl (JsError ''network error'')),
      initSync = (\<lambda>m i. Normal),
      wbg_rayon_start_worker = (\<lambda>m r. Normal)\<rparr>"

definition type_first_page :: string where
  "type_first_page = ''<html><head><script type=\"module\" src=\"/app-abcd.js\"></script></head></html>''"

definition src_first_page :: string where
  "src_first_page = ''<html><head><script src=\"/app-abcd.js\" type=\"module\"></script></head></html>''"

definition app_js :: string where
  "app_js = ''import init, { initThreadPool } from \"./chunk-123.js\"; init();''"

definition no_from_js :: string where
  "no_from_js = ''import(\"./chunk-123.js\").then(m => m.default());''"

definition offline :: env where
  "offline = (served src_first_page app_js)\<lparr>fetch := (\<lambda>u. Inl (JsError ''network error''))\<rparr>"

definition chunk_missing :: env where
  "chunk_missing = (served src_first_page app_js)\<lparr>dyn_import := (\<lambda>s. Inl (JsError (''cannot load '' @ s)))\<rparr>"

definition bundled :: env where
  "bundled = (served src_first_page app_js)\<lparr>dyn_import := (\<lambda>s. Inr (Pkg 0))\<rparr>"

definition two_scripts_page :: string where
  "two_scripts_page =
     ''<script src=\"/vendor.js\" type=\"module\"></script><script src=\"/app-abcd.js\" type=\"module\"></script>''"

definition init_example :: data where
  "init_example = Obj (Some ''wasm_bindgen_worker_init'') (Some (7, 8)) (Some 9)"

text \<open>
  Events of a worker: the init message and nothing settled yet; and a longer run in which
  other messages, a second init message and six settlements arrive.
\<close>

definition early_events :: "wevent list" where
  "early_events = [Message init_example, Message Nullish]"

definition later_events :: "wevent list" where
  "later_events =
     [Message (Obj (Some ''wasm_bindgen_worker_init'') (Some (1, 2)) (Some 3)), Settled,
      Message init_example, Settled, Settled, Settled, Settled, Settled]"

definition worker_events :: "wevent list" where
  "worker_events =
     [Message (Obj (Some ''x'') None None), Settled, Message Nullish, Message init_example]
     @ later_events"

text \<open>The same server, with a module that does not export the worker loop.\<close>

definition no_loop :: env where
  "no_loop = (served src_first_page app_js)\<lparr>wbg_rayon_start_worker := (\<lambda>m r. Absent)\<rparr>"

section \<open>Properties of waitForMsgType\<close>

lemma resolutions_append: "resolutions p (xs @ ys) = resolutions p xs @ resolutions p ys"
  by (induction p xs rule: resolutions.induct) auto

lemma dispatch_call_listener: "dispatch tgt d h = foldl (call_listener tgt d) h (listeners h)"
  unfolding dispatch_def call_listener_def by (rule arg_cong [where f = "\<lambda>f. foldl f h (listeners h)"]) auto

lemma filter_removeAll_commute: "filter P (removeAll y xs) = removeAll y (filter P xs)"
  by (induction xs) auto

lemma filter_removeAll_other:
  "\<not> P y \<Longrightarrow> filter P (removeAll y xs) = filter P xs"
  by (induction xs) auto

lemma onMsg_other:
  "q \<noteq> p \<Longrightarrow> waiters p (onMsg t q ty d h) = waiters p h
     \<and> resolutions p (trace (onMsg t q ty d h)) = resolutions p (trace h)"
  by (simp add: onMsg_def waiters_def filter_removeAll_other resolutions_append)

lemma onMsg_match:
  "data_type d = Some ty \<Longrightarrow> waiters p h = [(t, p, ty)] \<Longrightarrow>
     waiters p (onMsg t p ty d h) = [] \<and>
     resolutions p (trace (onMsg t p ty d h)) = resolutions p (trace h) @ [d]"
  by (simp add: onMsg_def waiters_def resolutions_append filter_removeAll_commute)

lemma waiters_member: "x \<in> set (listeners h) \<Longrightarrow> fst (snd x) = p \<Longrightarrow> x \<in> set (waiters p h)"
  by (simp add: waiters_def)

lemma call_listener_absent:
  assumes "waiters p h = []"
  shows "waiters p (call_listener tgt d h x) = [] \<and>
         resolutions p (trace (call_listener tgt d h x)) = resolutions p (trace h)"
proof (cases x)
  case (fields t q ty)
  show ?thesis
  proof (cases "t = tgt \<and> (t, q, ty) \<in> set (listeners h)")
    case True
    then have "q \<noteq> p" using assms waiters_member [of "(t, q, ty)" h p] by auto
    then show ?thesis using True fields assms onMsg_other [of q p t ty d h]
      by (simp add: call_listener_def)
  next
    case False
    then show ?thesis using fields assms by (auto simp add: call_listener_def)
  qed
qed

lemma fold_absent:
  "waiters p h = [] \<Longrightarrow>
     waiters p (foldl (call_listener tgt d) h xs) = [] \<and>
     resolutions p (trace (foldl (call_listener tgt d) h xs)) = resolutions p (trace h)"
proof (induction xs arbitrary: h)
  case Nil
  then show ?case by simp
next
  case (Cons x xs)
  from call_listener_absent [OF Cons.prems, of tgt d x] Cons.IH [of "call_listener tgt d h x"]
  show ?case by simp
qed

lemma waiters_single_member:
  "waiters p h = [(t0, p, ty0)] \<Longrightarrow> (t0, p, ty0) \<in> set (listeners h)"
proof -
  assume a: "waiters p h = [(t0, p, ty0)]"
  have "(t0, p, ty0) \<in> set (waiters p h)" using a by simp
  then show ?thesis by (simp add: waiters_def)
qed

lemma call_listener_hit:
  "waiters p h = [(t0, p, ty0)] \<Longrightarrow>
     call_listener t0 d h (t0, p, ty0) = onMsg t0 p ty0 d h"
  using waiters_single_member [of p h t0 ty0] by (simp add: call_listener_def)

lemma call_listener_miss:
  assumes "waiters p h = [(t0, p, ty0)]"
    and "\<not> (x = (t0, p, ty0) \<and> t0 = tgt \<and> data_type d = Some ty0)"
  shows "waiters p (call_listener tgt d h x) = [(t0, p, ty0)] \<and>
         resolutions p (trace (call_listener tgt d h x)) = resolutions p (trace h)"
proof (cases x)
  case (fields t q ty)
  show ?thesis
  proof (cases "q = p")
    case True
    show ?thesis
    proof (cases "t = tgt \<and> (t, q, ty) \<in> set (listeners h)")
      case True
      with \<open>q = p\<close> have "(t, q, ty) \<in> set (waiters p h)" by (auto simp add: waiters_def)
      with assms(1) have "x = (t0, p, ty0)" using fields by simp
      with assms(2) True fields have "data_type d \<noteq> Some ty0" by auto
      then show ?thesis using \<open>x = (t0, p, ty0)\<close> assms(1) by (simp add: call_listener_def onMsg_def)
    next
      case False
      then show ?thesis using fields assms(1) by (auto simp add: call_listener_def)
    qed
  next
    case False
    then show ?thesis using fields assms(1) onMsg_other [of q p t ty d h]
      by (auto simp add: call_listener_def)
  qed
qed

lemma fold_miss:
  "waiters p h = [(t0, p, ty0)] \<Longrightarrow> \<not> (t0 = tgt \<and> data_type d = Some ty0) \<Longrightarrow>
     waiters p (foldl (call_listener tgt d) h xs) = [(t0, p, ty0)] \<and>
     resolutions p (trace (foldl (call_listener tgt d) h xs)) = resolutions p (trace h)"
proof (induction xs arbitrary: h)
  case Nil
  then show ?case by simp
next
  case (Cons x xs)
  from Cons.prems have "\<not> (x = (t0, p, ty0) \<and> t0 = tgt \<and> data_type d = Some ty0)" by simp
  from call_listener_miss [OF Cons.prems(1) this] Cons.IH [of "call_listener tgt d h x"] Cons.prems(2)
  show ?case by simp
qed

lemma fold_hit:
  "waiters p h = [(t0, p, ty0)] \<Longrightarrow> data_type d = Some ty0 \<Longrightarrow> (t0, p, ty0) \<in> set xs \<Longrightarrow>
     waiters p (foldl (call_listener t0 d) h xs) = [] \<and>
     resolutions p (trace (foldl (call_listener t0 d) h xs)) = resolutions p (trace h) @ [d]"
proof (induction xs arbitrary: h)
  case Nil
  then show ?case by simp
next
  case (Cons x xs)
  show ?case
  proof (cases "x = (t0, p, ty0)")
    case True
    have "call_listener t0 d h x = onMsg t0 p ty0 d h"
      using True call_listener_hit [OF Cons.prems(1)] by simp
    moreover note onMsg_match [OF Cons.prems(2) Cons.prems(1)]
    ultimately have a: "waiters p (call_listener t0 d h x) = []"
      and b: "resolutions p (trace (call_listener t0 d h x)) = resolutions p (trace h) @ [d]"
      by simp_all
    from fold_absent [OF a, of t0 d xs] b show ?thesis by simp
  next
    case False
    then have m: "\<not> (x = (t0, p, ty0) \<and> t0 = t0 \<and> data_type d = Some ty0)" by simp
    from False Cons.prems(3) have "(t0, p, ty0) \<in> set xs" by simp
    with call_listener_miss [OF Cons.prems(1) m] Cons.IH [of "call_listener t0 d h x"] Cons.prems(2)
    show ?thesis by simp
  qed
qed

lemma dispatch_absent:
  "waiters p h = [] \<Longrightarrow>
     waiters p (dispatch tgt d h) = [] \<and>
     resolutions p (trace (dispatch tgt d h)) = resolutions p (trace h)"
  by (simp add: dispatch_call_listener fold_absent)

lemma dispatch_miss:
  "waiters p h = [(t0, p, ty0)] \<Longrightarrow> \<not> (t0 = tgt \<and> data_type d = Some ty0) \<Longrightarrow>
     waiters p (dispatch tgt d h) = [(t0, p, ty0)] \<and>
     resolutions p (trace (dispatch tgt d h)) = resolutions p (trace h)"
  by (simp add: dispatch_call_listener fold_miss)

lemma dispatch_hit:
  "waiters p h = [(t0, p, ty0)] \<Longrightarrow> data_type d = Some ty0 \<Longrightarrow>
     waiters p (dispatch t0 d h) = [] \<and>
     resolutions p (trace (dispatch t0 d h)) = resolutions p (trace h) @ [d]"
  using fold_hit [of p h t0 ty0 d "listeners h"] waiters_single_member [of p h t0 ty0]
  by (simp add: dispatch_call_listener)

lemma deliver_Cons: "deliver h (m # ms) = deliver (dispatch (fst m) (snd m) h) ms"
  by (simp add: deliver_def split_beta)

lemma deliver_Nil: "deliver h [] = h"
  by (simp add: deliver_def)

lemma deliver_absent:
  "waiters p h = [] \<Longrightarrow>
     waiters p (deliver h ms) = [] \<and>
     resolutions p (trace (deliver h ms)) = resolutions p (trace h)"
proof (induction ms arbitrary: h)
  case Nil
  then show ?case by (simp add: deliver_Nil)
next
  case (Cons m ms)
  from dispatch_absent [OF Cons.prems, of "fst m" "snd m"] Cons.IH [of "dispatch (fst m) (snd m) h"]
  show ?case by (simp add: deliver_Cons)
qed

lemma deliver_present:
  "waiters p h = [(t0, p, ty0)] \<Longrightarrow>
     (case first_match t0 ty0 ms of
        None \<Rightarrow> waiters p (deliver h ms) = [(t0, p, ty0)] \<and>
                resolutions p (trace (deliver h ms)) = resolutions p (trace h)
      | Some d \<Rightarrow> waiters p (deliver h ms) = [] \<and>
                resolutions p (trace (deliver h ms)) = resolutions p (trace h) @ [d])"
proof (induction ms arbitrary: h)
  case Nil
  then show ?case by (simp add: deliver_Nil)
next
  case (Cons m ms)
  obtain t d where m: "m = (t, d)" by (cases m)
  show ?case
  proof (cases "t = t0 \<and> data_type d = Some ty0")
    case True
    from dispatch_hit [OF Cons.prems, of d] True
    have a: "waiters p (dispatch t d h) = []"
      and b: "resolutions p (trace (dispatch t d h)) = resolutions p (trace h) @ [d]" by simp_all
    from deliver_absent [OF a, of ms] b True show ?thesis
      by (auto simp add: deliver_Cons m split: option.splits)
  next
    case False
    then have n: "\<not> (t0 = t \<and> data_type d = Some ty0)" by auto
    from dispatch_miss [OF Cons.prems n]
    have a: "waiters p (dispatch t d h) = [(t0, p, ty0)]"
      and b: "resolutions p (trace (dispatch t d h)) = resolutions p (trace h)" by simp_all
    from Cons.IH [OF a] b False show ?thesis
      by (auto simp add: deliver_Cons m split: option.splits)
  qed
qed

lemma resolutions_below:
  "list_all (effect_below n) es \<Longrightarrow> n \<le> p \<Longrightarrow> resolutions p es = []"
  by (induction p es rule: resolutions.induct) auto

lemma waitForMsgType_waiters:
  "hub_ok h \<Longrightarrow> waitForMsgType tgt ty h = (p, h1) \<Longrightarrow>
     p = fresh h \<and> waiters p h1 = [(tgt, p, ty)] \<and> resolutions p (trace h1) = []"
  by (fastforce simp add: waitForMsgType_def hub_ok_def waiters_def resolutions_append
        resolutions_below list_all_iff filter_empty_conv)


text \<open>
  C3. For every endpoint \<open>tgt\<close> and kind \<open>ty\<close>, in any context \<open>h\<close> (whatever other
  listeners it holds), \<open>waitForMsgType\<close> registers exactly one listener; whatever
  messages are delivered afterwards, on this or any other endpoint, \<open>resolve\<close> is called
  once if a message of kind \<open>ty\<close> arrives on \<open>tgt\<close>, with the data of the first such
  message, and never otherwise; the listener stays registered until that message and is
  gone from then on, so a second matching message resolves nothing; on a message of
  another kind the listener changes nothing at all.
\<close>

theorem waitForMsgType_resolves_once:
  assumes "hub_ok h" and "waitForMsgType tgt ty h = (p, h1)"
  shows "listeners h1 = listeners h @ [(tgt, p, ty)]
       \<and> waiters p h1 = [(tgt, p, ty)]
       \<and> resolutions p (trace (deliver h1 ms)) =
           (case first_match tgt ty ms of None \<Rightarrow> [] | Some d \<Rightarrow> [d])
       \<and> settled p (trace (deliver h1 ms)) = first_match tgt ty ms
       \<and> waiters p (deliver h1 ms) = (if first_match tgt ty ms = None then [(tgt, p, ty)] else [])
       \<and> (\<forall>d h'. data_type d \<noteq> Some ty \<longrightarrow> onMsg tgt p ty d (h' :: hub) = h')"
proof -
  from waitForMsgType_waiters [OF assms]
  have w: "waiters p h1 = [(tgt, p, ty)]" and r: "resolutions p (trace h1) = []" by blast+
  have l: "listeners h1 = listeners h @ [(tgt, p, ty)]"
    using assms(2) by (auto simp add: waitForMsgType_def)
  from deliver_present [OF w, of ms] r w l show ?thesis
    by (cases "first_match tgt ty ms") (simp_all add: settled_def onMsg_def)
qed

theorem waitForMsgType_resolves_once_witness:
  "hub_ok empty_hub
   \<and> waitForMsgType Self ''init'' empty_hub =
       (0, \<lparr>listeners = [(Self, 0, ''init'')], fresh = 1, trace = [AddListener Self 0 ''init'']\<rparr>)
   \<and> first_match Self ''init'' xy_init_init = Some (Obj (Some ''init'') (Some (1, 2)) (Some 3))
   \<and> resolutions 0 (trace (deliver
         \<lparr>listeners = [(Self, 0, ''init'')], fresh = 1, trace = [AddListener Self 0 ''init'']\<rparr>
         xy_init_init)) = [Obj (Some ''init'') (Some (1, 2)) (Some 3)]
   \<and> waiters 0 (deliver
         \<lparr>listeners = [(Self, 0, ''init'')], fresh = 1, trace = [AddListener Self 0 ''init'']\<rparr>
         xy_init_init) = []
   \<and> data_type (Obj (Some ''x'') None None) \<noteq> Some ''init''
   \<and> onMsg Self 0 ''init'' (Obj (Some ''x'') None None) empty_hub = empty_hub"
proof -
  have a: "hub_ok empty_hub"
    by (simp add: hub_ok_def empty_hub_def)
  have b: "waitForMsgType Self ''init'' empty_hub =
       (0, \<lparr>listeners = [(Self, 0, ''init'')], fresh = 1, trace = [AddListener Self 0 ''init'']\<rparr>)"
    by (simp add: waitForMsgType_def empty_hub_def)
  have c: "first_match Self ''init'' xy_init_init = Some (Obj (Some ''init'') (Some (1, 2)) (Some 3))"
    by (simp add: xy_init_init_def data_type_def)
  have d: "data_type (Obj (Some ''x'') None None) \<noteq> Some ''init''"
    by (simp add: data_type_def)
  from waitForMsgType_resolves_once [OF a b, of xy_init_init] a b c d show ?thesis
    by simp
qed

section \<open>Properties of startWorkers\<close>

subsection \<open>What a dispatch can do\<close>

lemma foldl_invariant:
  "P h \<Longrightarrow> (\<And>h' x. P h' \<Longrightarrow> P (f h' x)) \<Longrightarrow> P (foldl f h xs)"
  by (induction xs arbitrary: h) auto

lemma call_listener_cases:
  "call_listener tgt d h x = h \<or>
   (\<exists>t p ty. (t, p, ty) \<in> set (listeners h) \<and> data_type d = Some ty \<and>
      call_listener tgt d h x =
        h\<lparr>listeners := removeAll (t, p, ty) (listeners h),
          trace := trace h @ [RemoveListener t p, Resolve p d]\<rparr>)"
  by (cases x) (auto simp add: call_listener_def onMsg_def)

lemma grown_refl: "grown h h"
  by (simp add: grown_def)

lemma grown_call_listener: "grown h h' \<Longrightarrow> grown h (call_listener tgt d h' x)"
  using call_listener_cases [of tgt d h' x] by (auto simp add: grown_def)

lemma grown_dispatch: "grown h (dispatch tgt d h)"
  unfolding dispatch_call_listener
  by (rule foldl_invariant [where P = "grown h"]) (simp_all add: grown_refl grown_call_listener)

lemma dispatch_no_listener: "listeners h = [] \<Longrightarrow> dispatch tgt d h = h"
  by (simp add: dispatch_def)

lemma more_host_fields:
  "hub.more h' = hub.more (h :: host) \<Longrightarrow> awaited h' = awaited h \<and> status h' = status h"
  by (cases h; cases h') simp

text \<open>
  The contexts of the theorem on \<open>waitForMsgType\<close> are those in which the
  identities in use are below the counter. The empty context is one, and registering a
  waiter or dispatching a message leads from one to another.
\<close>

lemma hub_ok_empty: "hub_ok empty_hub"
  by (simp add: hub_ok_def empty_hub_def)

lemma effect_below_mono: "effect_below n e \<Longrightarrow> n \<le> m \<Longrightarrow> effect_below m e"
  by (cases e) simp_all

lemma hub_ok_waitForMsgType: "hub_ok h \<Longrightarrow> hub_ok (snd (waitForMsgType tgt ty h))"
  by (auto simp add: hub_ok_def waitForMsgType_def list_all_iff intro: effect_below_mono less_SucI)

lemma hub_ok_call_listener: "hub_ok h \<Longrightarrow> hub_ok (call_listener tgt d h x)"
  using call_listener_cases [of tgt d h x] by (fastforce simp add: hub_ok_def list_all_iff)

lemma hub_ok_dispatch: "hub_ok h \<Longrightarrow> hub_ok (dispatch tgt d h)"
  unfolding dispatch_call_listener
  by (rule foldl_invariant [where P = hub_ok]) (simp_all add: hub_ok_call_listener)

lemma hub_ok_deliver: "hub_ok h \<Longrightarrow> hub_ok (deliver h ms)"
  unfolding deliver_def
  by (rule foldl_invariant [where P = hub_ok]) (auto simp add: hub_ok_dispatch)

subsection \<open>The synchronous part\<close>

lemma spawn_spawned: "spawn wi (spawned wi n) n = spawned wi (Suc n)"
  by (simp add: spawn_def spawned_def waitForMsgType_def spawn_effects_def)

lemma foldl_spawn: "foldl (spawn wi) (spawned wi 0) [0..<n] = spawned wi n"
  by (induction n) (simp_all add: spawn_spawned)

lemma startWorkers_sync_spawned:
  "startWorkers_sync module memory b = spawned (init_msg module memory b) (numThreads b)"
  using foldl_spawn [of "init_msg module memory b" "numThreads b"]
  by (simp add: startWorkers_sync_def init_msg_def spawned_def)

lemma filter_eq_upt: "filter (\<lambda>j. j = k) [0..<n] = (if k < n then [k] else [])"
  by (induction n) auto

lemma spawned_waiters:
  "k < n \<Longrightarrow> waiters k (spawned wi n) = [(WorkerHandle k, k, ''wasm_bindgen_worker_ready'')]"
  by (simp add: waiters_def spawned_def filter_map comp_def filter_eq_upt)

lemma spawn_effects_resolutions: "resolutions p (concat (map (spawn_effects wi) ks)) = []"
  by (induction ks) (simp_all add: spawn_effects_def)

lemma spawned_resolutions: "resolutions p (trace (spawned wi n)) = []"
  by (simp add: spawned_def spawn_effects_resolutions)

lemma spawn_effects_quiet: "list_all quiet (concat (map (spawn_effects wi) ks))"
  by (induction ks) (simp_all add: spawn_effects_def)

lemma spawned_quiet: "list_all quiet (trace (spawned wi n))"
  by (simp add: spawned_def spawn_effects_quiet)

lemma spawned_listener:
  "x \<in> set (listeners (spawned wi n)) \<Longrightarrow>
     \<exists>k<n. x = (WorkerHandle k, k, ''wasm_bindgen_worker_ready'')"
  by (auto simp add: spawned_def)

subsection \<open>One waiter under the events of the host\<close>

lemma resume_hub:
  "listeners (resume h) = listeners h \<and> awaited (resume h) = awaited h
   \<and> fresh (resume h) = fresh h
   \<and> waiters p (resume h) = waiters p h
   \<and> resolutions p (trace (resume h)) = resolutions p (trace h)"
  by (simp add: resume_def waiters_def resolutions_append)

lemma settled_resume: "settled p (trace (resume h)) = settled p (trace h)"
  by (simp add: settled_def resume_hub)

lemma resume_pending:
  assumes "status x = Pending"
  shows "if list_all (\<lambda>p. settled p (trace (resume x)) \<noteq> None) (awaited (resume x))
         then status (resume x) = Fulfilled \<and> trace (resume x) = trace x @ [CallBuild, Return]
         else status (resume x) = Pending \<and> trace (resume x) = trace x"
  using assms by (simp add: settled_resume resume_hub) (simp add: resume_def)

lemma resume_fulfilled: "status x = Fulfilled \<Longrightarrow> resume x = x"
  by (simp add: resume_def)

lemma host_run_Nil: "host_run h [] = h"
  by (simp add: host_run_def)

lemma host_run_Cons: "host_run h (ev # evs) = host_run (host_step h ev) evs"
  by (simp add: host_run_def)

lemma host_run_snoc: "host_run h (evs @ [ev]) = host_step (host_run h evs) ev"
  by (simp add: host_run_def)

lemma host_step_absent:
  "waiters p h = [] \<Longrightarrow>
     waiters p (host_step h ev) = [] \<and>
     resolutions p (trace (host_step h ev)) = resolutions p (trace h)"
  by (simp add: host_step_def resume_hub dispatch_absent)

lemma host_run_absent:
  "waiters p h = [] \<Longrightarrow>
     waiters p (host_run h evs) = [] \<and>
     resolutions p (trace (host_run h evs)) = resolutions p (trace h)"
proof (induction evs arbitrary: h)
  case Nil
  then show ?case by (simp add: host_run_Nil)
next
  case (Cons ev evs)
  from host_step_absent [OF Cons.prems, of ev] Cons.IH [of "host_step h ev"]
  show ?case by (simp add: host_run_Cons)
qed

lemma host_run_present:
  "waiters p h = [(WorkerHandle k, p, ty)] \<Longrightarrow>
     (case first_match (WorkerHandle k) ty (inbox evs) of
        None \<Rightarrow> waiters p (host_run h evs) = [(WorkerHandle k, p, ty)] \<and>
                resolutions p (trace (host_run h evs)) = resolutions p (trace h)
      | Some d \<Rightarrow> waiters p (host_run h evs) = [] \<and>
                resolutions p (trace (host_run h evs)) = resolutions p (trace h) @ [d])"
proof (induction evs arbitrary: h)
  case Nil
  then show ?case by (simp add: host_run_Nil inbox_def)
next
  case (Cons ev evs)
  obtain j d where ev: "ev = (j, d)" by (cases ev)
  show ?case
  proof (cases "j = k \<and> data_type d = Some ty")
    case True
    from dispatch_hit [OF Cons.prems, of d] True
    have a: "waiters p (host_step h ev) = []"
      and b: "resolutions p (trace (host_step h ev)) = resolutions p (trace h) @ [d]"
      by (simp_all add: host_step_def resume_hub ev)
    from host_run_absent [OF a, of evs] b True show ?thesis
      by (auto simp add: host_run_Cons ev inbox_def split: option.splits)
  next
    case False
    then have n: "\<not> (WorkerHandle k = WorkerHandle j \<and> data_type d = Some ty)" by auto
    from dispatch_miss [OF Cons.prems n]
    have a: "waiters p (host_step h ev) = [(WorkerHandle k, p, ty)]"
      and b: "resolutions p (trace (host_step h ev)) = resolutions p (trace h)"
      by (simp_all add: host_step_def resume_hub ev)
    from Cons.IH [OF a] b False show ?thesis
      by (auto simp add: host_run_Cons ev inbox_def split: option.splits)
  qed
qed

lemma ready_from_first_match:
  "ready_from k evs \<longleftrightarrow> first_match (WorkerHandle k) ''wasm_bindgen_worker_ready'' (inbox evs) \<noteq> None"
  by (induction evs) (auto simp add: ready_from_def inbox_def)

lemma first_match_type:
  "first_match tgt ty ms = Some d \<Longrightarrow> data_type d = Some ty \<and> (tgt, d) \<in> set ms"
  by (induction tgt ty ms rule: first_match.induct) (auto split: if_splits)

lemma all_ready_iff: "all_ready n evs \<longleftrightarrow> (\<forall>k<n. ready_from k evs)"
  by (auto simp add: all_ready_def list_all_iff)

lemma ready_from_snoc: "ready_from k evs \<Longrightarrow> ready_from k (evs @ [ev])"
  by (simp add: ready_from_def)

lemma all_ready_snoc: "all_ready n evs \<Longrightarrow> all_ready n (evs @ [ev])"
  by (simp add: all_ready_iff ready_from_snoc)

subsection \<open>What a run can add\<close>

lemma waiter_later: "list_all waiter_effect es \<Longrightarrow> list_all later_effect es"
proof (induction es)
  case Nil
  then show ?case by simp
next
  case (Cons e es)
  then show ?case by (cases e) simp_all
qed

lemma waiter_quiet: "list_all waiter_effect es \<Longrightarrow> list_all quiet es"
proof (induction es)
  case Nil
  then show ?case by simp
next
  case (Cons e es)
  then show ?case by (cases e) simp_all
qed

lemma host_grown_refl: "host_grown h h"
  by (simp add: host_grown_def)

lemma host_grown_resume: "host_grown h (resume h)"
  by (simp add: host_grown_def resume_def)

lemma host_grown_dispatch: "host_grown h (dispatch tgt d h)"
  using grown_dispatch [of h tgt d] more_host_fields [of "dispatch tgt d h" h] waiter_later
  by (auto simp add: grown_def host_grown_def)

lemma host_grown_trans: "host_grown a b \<Longrightarrow> host_grown b c \<Longrightarrow> host_grown a c"
  by (auto simp add: host_grown_def)

lemma host_grown_step: "host_grown h (host_step h ev)"
  unfolding host_step_def
  by (rule host_grown_trans [OF host_grown_dispatch host_grown_resume])

lemma host_grown_run: "host_grown h (host_run h evs)"
proof (induction evs arbitrary: h)
  case Nil
  show ?case by (simp add: host_run_Nil host_grown_refl)
next
  case (Cons ev evs)
  from host_grown_trans [OF host_grown_step Cons.IH] show ?case
    by (simp add: host_run_Cons)
qed

lemma dispatch_pending:
  "status (h :: host) = Pending \<Longrightarrow> list_all quiet (trace h) \<Longrightarrow>
     status (dispatch tgt d h) = Pending \<and> list_all quiet (trace (dispatch tgt d h))"
  using grown_dispatch [of h tgt d] more_host_fields [of "dispatch tgt d h" h] waiter_quiet
  by (auto simp add: grown_def)

lemma quiet_count: "list_all quiet es \<Longrightarrow> count_list es CallBuild = 0 \<and> count_list es Return = 0"
proof (induction es)
  case Nil
  then show ?case by simp
next
  case (Cons e es)
  then show ?case by (cases e) simp_all
qed

lemma quiet_set: "list_all quiet es \<Longrightarrow> CallBuild \<notin> set es \<and> Return \<notin> set es"
  by (auto simp add: list_all_iff)

lemma workers_append: "workers (xs @ ys) = workers xs @ workers ys"
  by (induction xs rule: workers.induct) simp_all

lemma posts_append: "posts (xs @ ys) = posts xs @ posts ys"
  by (induction xs rule: posts.induct) simp_all

lemma later_projections:
  "list_all later_effect es \<Longrightarrow>
     workers es = [] \<and> posts es = [] \<and> count_list es CallReceiver = 0
     \<and> count_list es CallNumThreads = 0"
proof (induction es)
  case Nil
  then show ?case by simp
next
  case (Cons e es)
  then show ?case by (cases e) simp_all
qed

lemma spawn_effects_projections:
  "workers (concat (map (spawn_effects wi) [0..<n])) =
      map (\<lambda>k. (k, ''./workerHelpers.js'', ''module'', ''wasm_bindgen_worker'')) [0..<n]
   \<and> posts (concat (map (spawn_effects wi) [0..<n])) = map (\<lambda>k. (WorkerHandle k, wi)) [0..<n]
   \<and> count_list (concat (map (spawn_effects wi) [0..<n])) CallReceiver = 0
   \<and> count_list (concat (map (spawn_effects wi) [0..<n])) CallNumThreads = 0"
  by (induction n) (simp_all add: spawn_effects_def workers_append posts_append)

subsection \<open>The run as a whole\<close>

lemma startWorkers_waiter:
  assumes "k < numThreads b"
  shows "resolutions k (trace (host_run (startWorkers m mem b) evs)) =
           (case first_match (WorkerHandle k) ''wasm_bindgen_worker_ready'' (inbox evs) of
              None \<Rightarrow> [] | Some d \<Rightarrow> [d])
       \<and> settled k (trace (host_run (startWorkers m mem b) evs)) =
           first_match (WorkerHandle k) ''wasm_bindgen_worker_ready'' (inbox evs)
       \<and> waiters k (host_run (startWorkers m mem b) evs) =
           (if ready_from k evs then [] else [(WorkerHandle k, k, ''wasm_bindgen_worker_ready'')])"
proof -
  let ?h0 = "startWorkers m mem b"
  have w: "waiters k ?h0 = [(WorkerHandle k, k, ''wasm_bindgen_worker_ready'')]"
    using assms by (simp add: startWorkers_def startWorkers_sync_spawned resume_hub spawned_waiters)
  have r: "resolutions k (trace ?h0) = []"
    by (simp add: startWorkers_def startWorkers_sync_spawned resume_hub spawned_resolutions)
  from host_run_present [OF w, of evs] r show ?thesis
    by (auto simp add: settled_def ready_from_first_match split: option.splits)
qed

lemma startWorkers_awaited:
  "awaited (host_run (startWorkers m mem b) evs) = [0..<numThreads b]"
proof -
  have "awaited (startWorkers m mem b) = [0..<numThreads b]"
    by (simp add: startWorkers_def startWorkers_sync_spawned resume_hub spawned_def)
  then show ?thesis
    using host_grown_run [of "startWorkers m mem b" evs] by (simp add: host_grown_def)
qed

lemma startWorkers_all_settled:
  "list_all (\<lambda>p. settled p (trace (host_run (startWorkers m mem b) evs)) \<noteq> None)
      [0..<numThreads b] \<longleftrightarrow> all_ready (numThreads b) evs"
  using startWorkers_waiter [of _ b m mem evs]
  by (auto simp add: list_all_iff all_ready_iff ready_from_first_match)

lemma startWorkers_no_listener:
  assumes "all_ready (numThreads b) evs"
  shows "listeners (host_run (startWorkers m mem b) evs) = []"
proof (rule ccontr)
  let ?h = "host_run (startWorkers m mem b) evs"
  assume "listeners ?h \<noteq> []"
  then obtain x where x: "x \<in> set (listeners ?h)" by (cases "listeners ?h") auto
  have "set (listeners ?h) \<subseteq> set (listeners (startWorkers m mem b))"
    using host_grown_run [of "startWorkers m mem b" evs] by (simp add: host_grown_def)
  with x have "x \<in> set (listeners (spawned (init_msg m mem b) (numThreads b)))"
    by (auto simp add: startWorkers_def startWorkers_sync_spawned resume_hub)
  then obtain k where k: "k < numThreads b"
    and xk: "x = (WorkerHandle k, k, ''wasm_bindgen_worker_ready'')"
    using spawned_listener by blast
  from x xk have "x \<in> set (waiters k ?h)" by (simp add: waiters_def)
  moreover have "waiters k ?h = []"
    using startWorkers_waiter [OF k, of m mem evs] assms k by (simp add: all_ready_iff)
  ultimately show False by simp
qed

lemma host_summary:
  "if all_ready (numThreads b) evs
   then status (host_run (startWorkers m mem b) evs) = Fulfilled \<and>
        (\<exists>pre. trace (host_run (startWorkers m mem b) evs) = pre @ [CallBuild, Return] \<and>
               list_all quiet pre)
   else status (host_run (startWorkers m mem b) evs) = Pending \<and>
        list_all quiet (trace (host_run (startWorkers m mem b) evs))"
proof (induction evs rule: rev_induct)
  case Nil
  let ?x = "spawned (init_msg m mem b) (numThreads b)"
  have h: "host_run (startWorkers m mem b) [] = resume ?x"
    by (simp add: host_run_Nil startWorkers_def startWorkers_sync_spawned)
  have p: "status ?x = Pending" by (simp add: spawned_def)
  have q: "list_all quiet (trace ?x)" by (rule spawned_quiet)
  from resume_pending [OF p] q startWorkers_all_settled [of m mem b "[]"]
    startWorkers_awaited [of m mem b "[]"]
  show ?case unfolding h [symmetric] by auto
next
  case (snoc ev evs)
  let ?h = "host_run (startWorkers m mem b) evs"
  let ?x = "dispatch (WorkerHandle (fst ev)) (snd ev) ?h"
  have h': "host_run (startWorkers m mem b) (evs @ [ev]) = resume ?x"
    by (simp add: host_run_snoc host_step_def)
  show ?case
  proof (cases "all_ready (numThreads b) evs")
    case True
    then have "listeners ?h = []" by (rule startWorkers_no_listener)
    then have "?x = ?h" by (rule dispatch_no_listener)
    moreover from True snoc have "status ?h = Fulfilled" by simp
    ultimately have "resume ?x = ?h" by (simp add: resume_fulfilled)
    with True snoc all_ready_snoc [OF True, of ev] show ?thesis
      unfolding h' by simp
  next
    case False
    with snoc have "status ?h = Pending" and "list_all quiet (trace ?h)" by simp_all
    then have p: "status ?x = Pending" and q: "list_all quiet (trace ?x)"
      using dispatch_pending [of ?h "WorkerHandle (fst ev)" "snd ev"] by simp_all
    from resume_pending [OF p] q startWorkers_all_settled [of m mem b "evs @ [ev]"]
      startWorkers_awaited [of m mem b "evs @ [ev]"]
    show ?thesis unfolding h' [symmetric] by auto
  qed
qed

lemma startWorkers_trace:
  "\<exists>es. trace (host_run (startWorkers m mem b) evs) =
          [CallReceiver, CallNumThreads]
          @ concat (map (spawn_effects (init_msg m mem b)) [0..<numThreads b]) @ es
        \<and> list_all later_effect es"
proof -
  let ?x = "spawned (init_msg m mem b) (numThreads b)"
  have "host_grown ?x (startWorkers m mem b)"
    by (simp add: startWorkers_def startWorkers_sync_spawned host_grown_resume)
  from host_grown_trans [OF this host_grown_run [of _ evs]]
  show ?thesis by (auto simp add: host_grown_def spawned_def)
qed

lemma startWorkers_calls:
  "workers (trace (host_run (startWorkers m mem b) evs)) =
      map (\<lambda>k. (k, ''./workerHelpers.js'', ''module'', ''wasm_bindgen_worker'')) [0..<numThreads b]
   \<and> posts (trace (host_run (startWorkers m mem b) evs)) =
      map (\<lambda>k. (WorkerHandle k, init_msg m mem b)) [0..<numThreads b]
   \<and> count_list (trace (host_run (startWorkers m mem b) evs)) CallReceiver = 1
   \<and> count_list (trace (host_run (startWorkers m mem b) evs)) CallNumThreads = 1"
proof -
  obtain es where t: "trace (host_run (startWorkers m mem b) evs) =
          [CallReceiver, CallNumThreads]
          @ concat (map (spawn_effects (init_msg m mem b)) [0..<numThreads b]) @ es"
    and l: "list_all later_effect es"
    using startWorkers_trace by blast
  show ?thesis
    unfolding t
    using later_projections [OF l] spawn_effects_projections [of "init_msg m mem b" "numThreads b"]
    by (simp add: workers_append posts_append)
qed

lemma host_run_done:
  "listeners (h :: host) = [] \<Longrightarrow> status h = Fulfilled \<Longrightarrow> host_run h evs = h"
  by (induction evs) (simp_all add: host_run_Nil host_run_Cons host_step_def dispatch_no_listener resume_fulfilled)

lemma all_ready_both: "all_ready (numThreads two_threads) both_ready"
  by code_simp

lemma not_ready_one: "\<not> ready_from 0 one_ready"
  by (simp add: ready_from_def one_ready_def ready_msg_def data_type_def)

text \<open>
  A run with two workers, step by step: worker 1 is ready first, worker 0 sends something
  else, worker 1 repeats itself, worker 0 is ready.
\<close>

lemma two_threads_run:
  "host_run (startWorkers 7 8 two_threads) both_ready =
     \<lparr>listeners = [], fresh = 2,
      trace =
        [CallReceiver, CallNumThreads,
         NewWorker 0 ''./workerHelpers.js'' ''module'' ''wasm_bindgen_worker'',
         PostMessage (WorkerHandle 0) (Obj (Some ''wasm_bindgen_worker_init'') (Some (7, 8)) (Some 9)),
         AddListener (WorkerHandle 0) 0 ''wasm_bindgen_worker_ready'',
         NewWorker 1 ''./workerHelpers.js'' ''module'' ''wasm_bindgen_worker'',
         PostMessage (WorkerHandle 1) (Obj (Some ''wasm_bindgen_worker_init'') (Some (7, 8)) (Some 9)),
         AddListener (WorkerHandle 1) 1 ''wasm_bindgen_worker_ready'',
         RemoveListener (WorkerHandle 1) 1, Resolve 1 ready_msg,
         RemoveListener (WorkerHandle 0) 0, Resolve 0 ready_msg,
         CallBuild, Return],
      awaited = [0, 1], status = Fulfilled\<rparr>"
  by (simp add: startWorkers_def startWorkers_sync_spawned spawned_def spawn_effects_def
      init_msg_def two_threads_def both_ready_def ready_msg_def numeral_2_eq_2
      host_run_def host_step_def dispatch_def onMsg_def resume_def settled_def data_type_def)

text \<open>
  C1. For a builder with \<^verbatim>\<open>numThreads() = N\<close> and any sequence \<open>evs\<close> of message
  events arriving at the host (from any worker, of any kind, in any order, with
  repetitions), \<^verbatim>\<open>builder.build()\<close> has been called exactly once if every one of the N
  workers has sent a ready message among \<open>evs\<close>, and not at all otherwise. Since this
  holds for every \<open>evs\<close>, it holds for every prefix: no call before the last missing
  ready message, no second call after. When it has been called, the call and the return
  of \<^verbatim>\<open>startWorkers\<close> are the last two effects, and before them the waiter of each
  worker was resolved exactly once, with a ready message of that worker.
\<close>

theorem startWorkers_build_iff_all_ready:
  "count_list (trace (host_run (startWorkers m mem b) evs)) CallBuild =
     (if all_ready (numThreads b) evs then 1 else 0)
   \<and> (all_ready (numThreads b) evs \<longrightarrow>
        (\<exists>pre. trace (host_run (startWorkers m mem b) evs) = pre @ [CallBuild, Return]
           \<and> CallBuild \<notin> set pre
           \<and> (\<forall>k<numThreads b. \<exists>d. data_type d = Some ''wasm_bindgen_worker_ready''
                  \<and> (k, d) \<in> set evs \<and> resolutions k pre = [d])))"
proof (cases "all_ready (numThreads b) evs")
  case False
  with host_summary [of b evs m mem] quiet_count show ?thesis by simp
next
  case True
  let ?h = "host_run (startWorkers m mem b) evs"
  from True host_summary [of b evs m mem]
  obtain pre where t: "trace ?h = pre @ [CallBuild, Return]" and q: "list_all quiet pre"
    by auto
  have c: "count_list (trace ?h) CallBuild = 1"
    using quiet_count [OF q] by (simp add: t)
  have n: "CallBuild \<notin> set pre" using quiet_set [OF q] by simp
  have "\<exists>d. data_type d = Some ''wasm_bindgen_worker_ready'' \<and> (k, d) \<in> set evs
            \<and> resolutions k pre = [d]" if k: "k < numThreads b" for k
  proof -
    from True k have "ready_from k evs" by (simp add: all_ready_iff)
    then obtain d where d: "first_match (WorkerHandle k) ''wasm_bindgen_worker_ready'' (inbox evs) = Some d"
      by (auto simp add: ready_from_first_match)
    from first_match_type [OF d] have "data_type d = Some ''wasm_bindgen_worker_ready''"
      and "(k, d) \<in> set evs" by (auto simp add: inbox_def)
    moreover from startWorkers_waiter [OF k, of m mem evs] d
    have "resolutions k pre = [d]" by (simp add: t resolutions_append)
    ultimately show ?thesis by blast
  qed
  with True c n t show ?thesis by auto
qed

theorem startWorkers_build_iff_all_ready_witness:
  "all_ready (numThreads two_threads) both_ready
   \<and> count_list (trace (host_run (startWorkers 7 8 two_threads) both_ready)) CallBuild = 1
   \<and> (\<exists>pre. trace (host_run (startWorkers 7 8 two_threads) both_ready) = pre @ [CallBuild, Return]
          \<and> CallBuild \<notin> set pre)
   \<and> \<not> all_ready (numThreads two_threads) one_ready
   \<and> count_list (trace (host_run (startWorkers 7 8 two_threads) one_ready)) CallBuild = 0"
proof -
  have a: "all_ready (numThreads two_threads) both_ready"
    by code_simp
  have b: "\<not> all_ready (numThreads two_threads) one_ready"
    by code_simp
  from startWorkers_build_iff_all_ready [of 7 8 two_threads both_ready]
    startWorkers_build_iff_all_ready [of 7 8 two_threads one_ready] a b
  show ?thesis by auto
qed

text \<open>
  C2. The promise of \<^verbatim>\<open>startWorkers\<close> is fulfilled only with \<^verbatim>\<open>builder.build()\<close>
  called just before; as long as one of the N workers has sent no ready message,
  whatever else has arrived, the promise is pending and \<^verbatim>\<open>build()\<close> has not been
  called. No event of the model stands for the passing of time, so nothing fulfils the
  promise of a run in which a worker stays silent.
\<close>

theorem startWorkers_resolves_after_build:
  "(status (host_run (startWorkers m mem b) evs) = Fulfilled \<longleftrightarrow> all_ready (numThreads b) evs)
   \<and> (Return \<in> set (trace (host_run (startWorkers m mem b) evs)) \<longleftrightarrow> all_ready (numThreads b) evs)
   \<and> (status (host_run (startWorkers m mem b) evs) = Fulfilled \<longrightarrow>
        (\<exists>pre. trace (host_run (startWorkers m mem b) evs) = pre @ [CallBuild, Return]
              \<and> CallBuild \<notin> set pre \<and> Return \<notin> set pre))
   \<and> ((\<exists>k<numThreads b. \<not> ready_from k evs) \<longrightarrow>
        status (host_run (startWorkers m mem b) evs) = Pending
        \<and> CallBuild \<notin> set (trace (host_run (startWorkers m mem b) evs))
        \<and> Return \<notin> set (trace (host_run (startWorkers m mem b) evs)))"
proof (cases "all_ready (numThreads b) evs")
  case True
  from True host_summary [of b evs m mem]
  obtain pre where "trace (host_run (startWorkers m mem b) evs) = pre @ [CallBuild, Return]"
    and "list_all quiet pre" and "status (host_run (startWorkers m mem b) evs) = Fulfilled"
    by auto
  with True quiet_set [of pre] show ?thesis by (auto simp add: all_ready_iff)
next
  case False
  with host_summary [of b evs m mem]
  have "status (host_run (startWorkers m mem b) evs) = Pending"
    and "list_all quiet (trace (host_run (startWorkers m mem b) evs))" by simp_all
  with False quiet_set [of "trace (host_run (startWorkers m mem b) evs)"] show ?thesis
    by (auto simp add: all_ready_iff)
qed

theorem startWorkers_resolves_after_build_witness:
  "(\<exists>k<numThreads two_threads. \<not> ready_from k one_ready)
   \<and> status (host_run (startWorkers 7 8 two_threads) one_ready) = Pending
   \<and> CallBuild \<notin> set (trace (host_run (startWorkers 7 8 two_threads) one_ready))
   \<and> all_ready (numThreads two_threads) both_ready
   \<and> status (host_run (startWorkers 7 8 two_threads) both_ready) = Fulfilled
   \<and> (\<exists>pre. trace (host_run (startWorkers 7 8 two_threads) both_ready) = pre @ [CallBuild, Return]
          \<and> CallBuild \<notin> set pre \<and> Return \<notin> set pre)"
proof -
  have a: "\<exists>k<numThreads two_threads. \<not> ready_from k one_ready"
    by (rule exI [of _ 0]) (simp add: not_ready_one two_threads_def)
  from startWorkers_resolves_after_build [of 7 8 two_threads one_ready]
    startWorkers_resolves_after_build [of 7 8 two_threads both_ready] a all_ready_both
  show ?thesis by simp
qed

text \<open>
  C4. At any time after the call, the trace holds exactly N \<^verbatim>\<open>new Worker\<close> calls, one
  call of \<^verbatim>\<open>builder.receiver()\<close> whatever N is, and exactly one \<^verbatim>\<open>postMessage\<close> per
  worker, each with the same init message, which carries the module, the memory and the
  one receiver handle. The statement needs no bound on N.
\<close>

theorem startWorkers_spawns_each_once:
  "workers (trace (host_run (startWorkers m mem b) evs)) =
      map (\<lambda>k. (k, ''./workerHelpers.js'', ''module'', ''wasm_bindgen_worker'')) [0..<numThreads b]
   \<and> length (workers (trace (host_run (startWorkers m mem b) evs))) = numThreads b
   \<and> count_list (trace (host_run (startWorkers m mem b) evs)) CallReceiver = 1
   \<and> posts (trace (host_run (startWorkers m mem b) evs)) =
      map (\<lambda>k. (WorkerHandle k,
                Obj (Some ''wasm_bindgen_worker_init'') (Some (m, mem)) (Some (receiver b))))
          [0..<numThreads b]"
  using startWorkers_calls [of m mem b evs] by (simp add: init_msg_def)

theorem startWorkers_spawns_each_once_witness:
  "workers (trace (host_run (startWorkers 7 8 two_threads) both_ready)) =
      [(0, ''./workerHelpers.js'', ''module'', ''wasm_bindgen_worker''),
       (1, ''./workerHelpers.js'', ''module'', ''wasm_bindgen_worker'')]
   \<and> count_list (trace (host_run (startWorkers 7 8 two_threads) both_ready)) CallReceiver = 1
   \<and> posts (trace (host_run (startWorkers 7 8 two_threads) both_ready)) =
      [(WorkerHandle 0, Obj (Some ''wasm_bindgen_worker_init'') (Some (7, 8)) (Some 9)),
       (WorkerHandle 1, Obj (Some ''wasm_bindgen_worker_init'') (Some (7, 8)) (Some 9))]"
  using startWorkers_spawns_each_once [of 7 8 two_threads both_ready]
  by (simp add: two_threads_def numeral_2_eq_2)

text \<open>
  C9. When \<^verbatim>\<open>numThreads()\<close> is 0, the whole run is: \<^verbatim>\<open>receiver()\<close>,
  \<^verbatim>\<open>numThreads()\<close>, \<^verbatim>\<open>build()\<close>, return. No worker is created, no message is posted,
  no listener is registered, the promise is fulfilled, and no later message changes
  anything.
\<close>

theorem startWorkers_zero_threads:
  assumes "numThreads b = 0"
  shows "host_run (startWorkers m mem b) evs =
           \<lparr>listeners = [], fresh = 0, trace = [CallReceiver, CallNumThreads, CallBuild, Return],
            awaited = [], status = Fulfilled\<rparr>"
proof -
  have "startWorkers m mem b =
           \<lparr>listeners = [], fresh = 0, trace = [CallReceiver, CallNumThreads, CallBuild, Return],
            awaited = [], status = Fulfilled\<rparr>"
    using assms by (simp add: startWorkers_def startWorkers_sync_def resume_def)
  then show ?thesis by (simp add: host_run_done)
qed

theorem startWorkers_zero_threads_witness:
  "numThreads no_threads = 0
   \<and> host_run (startWorkers 7 8 no_threads) one_ready =
           \<lparr>listeners = [], fresh = 0, trace = [CallReceiver, CallNumThreads, CallBuild, Return],
            awaited = [], status = Fulfilled\<rparr>"
proof -
  have a: "numThreads no_threads = 0" by (simp add: no_threads_def)
  from startWorkers_zero_threads [OF a, of 7 8 one_ready] a show ?thesis by simp
qed

section \<open>Properties of resolveMainModule\<close>

lemma search_skipped: "skipped ci ps pre rest \<Longrightarrow> search ci ps (pre @ rest) = search ci ps rest"
  by (induction pre) simp_all

lemma search_here: "bt ci ps s [] = Some r \<Longrightarrow> search ci ps s = Some r"
  by (cases s) simp_all

lemma script_tag_here:
  "bt True script_re (''<script src=\"/app-abcd.js\" type=\"module\"'' @ post) [] = Some ''/app-abcd.js''"
  by (simp add: script_re_def lits_def quotes_def white_space_def upper_def keep_def)

lemma from_here:
  "bt False from_re (''from \"./chunk-123.js\"'' @ post) [] = Some ''chunk-123.js''"
  by (simp add: from_re_def lits_def quotes_def white_space_def keep_def)

lemma script_tag_found:
  "skipped True script_re pre (''<script src=\"/app-abcd.js\" type=\"module\"'' @ post) \<Longrightarrow>
     search True script_re (pre @ ''<script src=\"/app-abcd.js\" type=\"module\"'' @ post)
       = Some ''/app-abcd.js''"
  using search_skipped [of True script_re pre "''<script src=\"/app-abcd.js\" type=\"module\"'' @ post"]
    search_here [OF script_tag_here [of post]] by simp

lemma from_found:
  "skipped False from_re pre (''from \"./chunk-123.js\"'' @ post) \<Longrightarrow>
     search False from_re (pre @ ''from \"./chunk-123.js\"'' @ post) = Some ''chunk-123.js''"
  using search_skipped [of False from_re pre "''from \"./chunk-123.js\"'' @ post"]
    search_here [OF from_here [of post]] by simp

lemma resolver_no_post: "count_list (snd (resolveMainModule E)) (PostMessage t d) = 0"
  by (simp add: resolveMainModule_def scrape_def doing_def split: sum.splits option.splits)

lemma served_resolves:
  "resolveMainModule (served src_first_page app_js) =
       (Inr (Pkg 1),
        [Import ''../../..'', Fetch ''http://localhost:1334/'',
         Fetch ''http://localhost:1334/app-abcd.js'', Import ''http://localhost:1334/chunk-123.js''])"
proof -
  have s: "search True script_re src_first_page = Some ''/app-abcd.js''"
    by (simp add: src_first_page_def script_re_def lits_def quotes_def white_space_def upper_def keep_def)
  have f: "search False from_re app_js = Some ''chunk-123.js''"
    by (simp add: app_js_def from_re_def lits_def quotes_def white_space_def keep_def)
  show ?thesis
    by (simp add: s f resolveMainModule_def scrape_def doing_def served_def fetch_text_def)
qed

text \<open>
  C6. The pattern of the program wants \<^verbatim>\<open>src\<close> right after \<^verbatim>\<open><script\<close> and
  \<^verbatim>\<open>type\<close> after it. On a page whose only script tag is
  \<^verbatim>\<open><script type="module" src="/app-abcd.js">\<close> the search finds nothing: after the
  fetch of the root URL the resolver fetches nothing more and throws the original error.
\<close>

theorem type_first_tag_not_found:
  "dyn_import (served type_first_page app_js) ''../../..'' = Inl (JsError ''import failed'')
   \<and> fetch_text (served type_first_page app_js) ''http://localhost:1334/'' = Inr type_first_page
   \<and> search True script_re type_first_page = None
   \<and> resolveMainModule (served type_first_page app_js) =
       (Inl (JsError ''import failed''), [Import ''../../..'', Fetch ''http://localhost:1334/''])
   \<and> Fetch ''http://localhost:1334/app-abcd.js''
       \<notin> set (snd (resolveMainModule (served type_first_page app_js)))"
proof -
  have s: "search True script_re type_first_page = None"
    by (simp add: type_first_page_def script_re_def lits_def quotes_def white_space_def upper_def keep_def)
  show ?thesis
    by (simp add: s resolveMainModule_def scrape_def doing_def served_def fetch_text_def)
qed

text \<open>
  The search returns the leftmost match: of two tags that both fit the pattern, the
  first one in the page is taken, wherever the other stands.
\<close>

lemma first_script_tag_wins: "search True script_re two_scripts_page = Some ''/vendor.js''"
  by (simp add: two_scripts_page_def script_re_def lits_def quotes_def white_space_def upper_def keep_def)

text \<open>
  C6, as the program has it. When the leftmost match of the tag pattern in the page is
  \<^verbatim>\<open><script src="/app-abcd.js" type="module"\<close>, the search captures
  \<^verbatim>\<open>/app-abcd.js\<close> and the resolver fetches \<^verbatim>\<open>new URL('/app-abcd.js', rootUrl)\<close>;
  when the leftmost match of the import pattern in that script is
  \<^verbatim>\<open>from "./chunk-123.js"\<close>, the resolver imports
  \<^verbatim>\<open>new URL('chunk-123.js', rootUrl)\<close> and returns what that import returns.
\<close>

theorem resolveMainModule_scrapes_src_first:
  assumes "dyn_import E ''../../..'' = Inl e"
    and "new_URL E ''../../..'' (meta_url E) = Inr rootUrl"
    and "fetch_text E rootUrl = Inr (pre @ ''<script src=\"/app-abcd.js\" type=\"module\"'' @ post)"
    and "skipped True script_re pre (''<script src=\"/app-abcd.js\" type=\"module\"'' @ post)"
    and "new_URL E ''/app-abcd.js'' rootUrl = Inr scriptUrl"
    and "fetch_text E scriptUrl = Inr (pre' @ ''from \"./chunk-123.js\"'' @ post')"
    and "skipped False from_re pre' (''from \"./chunk-123.js\"'' @ post')"
    and "new_URL E ''chunk-123.js'' rootUrl = Inr chunkUrl"
  shows "search True script_re (pre @ ''<script src=\"/app-abcd.js\" type=\"module\"'' @ post)
           = Some ''/app-abcd.js''
       \<and> search False from_re (pre' @ ''from \"./chunk-123.js\"'' @ post') = Some ''chunk-123.js''
       \<and> resolveMainModule E =
           (dyn_import E chunkUrl,
            [Import ''../../..'', Fetch rootUrl, Fetch scriptUrl, Import chunkUrl])"
  using assms script_tag_found [OF assms(4)] from_found [OF assms(7)]
  by (simp add: resolveMainModule_def scrape_def doing_def)

theorem resolveMainModule_scrapes_src_first_witness:
  "dyn_import (served src_first_page app_js) ''../../..'' = Inl (JsError ''import failed'')
   \<and> new_URL (served src_first_page app_js) ''../../..'' (meta_url (served src_first_page app_js))
        = Inr ''http://localhost:1334/''
   \<and> fetch_text (served src_first_page app_js) ''http://localhost:1334/''
        = Inr (''<html><head>'' @ ''<script src=\"/app-abcd.js\" type=\"module\"''
               @ ''></script></head></html>'')
   \<and> skipped True script_re ''<html><head>''
        (''<script src=\"/app-abcd.js\" type=\"module\"'' @ ''></script></head></html>'')
   \<and> new_URL (served src_first_page app_js) ''/app-abcd.js'' ''http://localhost:1334/''
        = Inr ''http://localhost:1334/app-abcd.js''
   \<and> fetch_text (served src_first_page app_js) ''http://localhost:1334/app-abcd.js''
        = Inr (''import init, { initThreadPool } '' @ ''from \"./chunk-123.js\"'' @ ''; init();'')
   \<and> skipped False from_re ''import init, { initThreadPool } ''
        (''from \"./chunk-123.js\"'' @ ''; init();'')
   \<and> new_URL (served src_first_page app_js) ''chunk-123.js'' ''http://localhost:1334/''
        = Inr ''http://localhost:1334/chunk-123.js''
   \<and> resolveMainModule (served src_first_page app_js) =
       (Inr (Pkg 1),
        [Import ''../../..'', Fetch ''http://localhost:1334/'',
         Fetch ''http://localhost:1334/app-abcd.js'', Import ''http://localhost:1334/chunk-123.js''])"
proof -
  let ?E = "served src_first_page app_js"
  have h1: "dyn_import ?E ''../../..'' = Inl (JsError ''import failed'')"
    by (simp add: served_def)
  have h2: "new_URL ?E ''../../..'' (meta_url ?E) = Inr ''http://localhost:1334/''"
    by (simp add: served_def)
  have h3: "fetch_text ?E ''http://localhost:1334/''
        = Inr (''<html><head>'' @ ''<script src=\"/app-abcd.js\" type=\"module\"''
               @ ''></script></head></html>'')"
    by (simp add: served_def fetch_text_def src_first_page_def)
  have h4: "skipped True script_re ''<html><head>''
        (''<script src=\"/app-abcd.js\" type=\"module\"'' @ ''></script></head></html>'')"
    by (simp add: script_re_def lits_def quotes_def white_space_def upper_def keep_def)
  have h5: "new_URL ?E ''/app-abcd.js'' ''http://localhost:1334/''
        = Inr ''http://localhost:1334/app-abcd.js''"
    by (simp add: served_def)
  have h6: "fetch_text ?E ''http://localhost:1334/app-abcd.js''
        = Inr (''import init, { initThreadPool } '' @ ''from \"./chunk-123.js\"'' @ ''; init();'')"
    by (simp add: served_def fetch_text_def app_js_def)
  have h7: "skipped False from_re ''import init, { initThreadPool } ''
        (''from \"./chunk-123.js\"'' @ ''; init();'')"
    by (simp add: from_re_def lits_def quotes_def white_space_def keep_def)
  have h8: "new_URL ?E ''chunk-123.js'' ''http://localhost:1334/''
        = Inr ''http://localhost:1334/chunk-123.js''"
    by (simp add: served_def)
  have h9: "dyn_import ?E ''http://localhost:1334/chunk-123.js'' = Inr (Pkg 1)"
    by (simp add: served_def)
  from resolveMainModule_scrapes_src_first [OF h1 h2 h3 h4 h5 h6 h7 h8] h9
  have "resolveMainModule ?E =
       (Inr (Pkg 1),
        [Import ''../../..'', Fetch ''http://localhost:1334/'',
         Fetch ''http://localhost:1334/app-abcd.js'', Import ''http://localhost:1334/chunk-123.js''])"
    by simp
  with h1 h2 h3 h4 h5 h6 h7 h8 show ?thesis by blast
qed

text \<open>
  C7. A step of the fallback that itself fails is not replaced by the original error.
  When both searches succeed and the import of the chunk they lead to is rejected (the
  module is not there), the resolver fails with the error of that import; when the
  fetch of the root URL is rejected, it fails with the error of the fetch. In both runs
  the direct import has failed first, with another error.
\<close>

theorem fallback_failure_masks_original:
  "dyn_import chunk_missing ''../../..'' = Inl (JsError ''cannot load ../../..'')
   \<and> search True script_re src_first_page = Some ''/app-abcd.js''
   \<and> search False from_re app_js = Some ''chunk-123.js''
   \<and> fst (resolveMainModule chunk_missing) =
       Inl (JsError ''cannot load http://localhost:1334/chunk-123.js'')
   \<and> fst (resolveMainModule chunk_missing) \<noteq> Inl (JsError ''cannot load ../../..'')
   \<and> dyn_import offline ''../../..'' = Inl (JsError ''import failed'')
   \<and> fst (resolveMainModule offline) = Inl (JsError ''network error'')
   \<and> fst (resolveMainModule offline) \<noteq> Inl (JsError ''import failed'')"
proof -
  have s: "search True script_re src_first_page = Some ''/app-abcd.js''"
    by (simp add: src_first_page_def script_re_def lits_def quotes_def white_space_def upper_def keep_def)
  have f: "search False from_re app_js = Some ''chunk-123.js''"
    by (simp add: app_js_def from_re_def lits_def quotes_def white_space_def keep_def)
  show ?thesis
    by (simp add: s f resolveMainModule_def scrape_def doing_def served_def fetch_text_def
        offline_def chunk_missing_def)
qed

text \<open>
  C7, as the program has it. When the direct import fails with \<open>e\<close>, the page is
  fetched, and either the tag search finds nothing in it, or it finds a script that is
  fetched and in which the import search finds nothing, the resolver fails with \<open>e\<close>.
\<close>

theorem resolveMainModule_rethrows_when_not_found:
  assumes "dyn_import E ''../../..'' = Inl e"
    and "new_URL E ''../../..'' (meta_url E) = Inr rootUrl"
    and "fetch_text E rootUrl = Inr html"
    and "search True script_re html = None
         \<or> (\<exists>src scriptUrl runText. search True script_re html = Some src
               \<and> new_URL E src rootUrl = Inr scriptUrl
               \<and> fetch_text E scriptUrl = Inr runText
               \<and> search False from_re runText = None)"
  shows "fst (resolveMainModule E) = Inl e"
  using assms by (auto simp add: resolveMainModule_def scrape_def doing_def)

theorem resolveMainModule_rethrows_when_not_found_witness:
  "dyn_import (served type_first_page app_js) ''../../..'' = Inl (JsError ''import failed'')
   \<and> search True script_re type_first_page = None
   \<and> fst (resolveMainModule (served type_first_page app_js)) = Inl (JsError ''import failed'')
   \<and> search True script_re src_first_page = Some ''/app-abcd.js''
   \<and> search False from_re no_from_js = None
   \<and> fst (resolveMainModule (served src_first_page no_from_js)) = Inl (JsError ''import failed'')"
proof -
  let ?E = "served type_first_page app_js"
  let ?F = "served src_first_page no_from_js"
  have h1: "dyn_import ?E ''../../..'' = Inl (JsError ''import failed'')"
    by (simp add: served_def)
  have h2: "new_URL ?E ''../../..'' (meta_url ?E) = Inr ''http://localhost:1334/''"
    by (simp add: served_def)
  have h3: "fetch_text ?E ''http://localhost:1334/'' = Inr type_first_page"
    by (simp add: served_def fetch_text_def)
  have h4: "search True script_re type_first_page = None"
    by (simp add: type_first_page_def script_re_def lits_def quotes_def white_space_def
        upper_def keep_def)
  have g1: "dyn_import ?F ''../../..'' = Inl (JsError ''import failed'')"
    by (simp add: served_def)
  have g2: "new_URL ?F ''../../..'' (meta_url ?F) = Inr ''http://localhost:1334/''"
    by (simp add: served_def)
  have g3: "fetch_text ?F ''http://localhost:1334/'' = Inr src_first_page"
    by (simp add: served_def fetch_text_def)
  have g4: "search True script_re src_first_page = Some ''/app-abcd.js''"
    by (simp add: src_first_page_def script_re_def lits_def quotes_def white_space_def
        upper_def keep_def)
  have g5: "new_URL ?F ''/app-abcd.js'' ''http://localhost:1334/''
        = Inr ''http://localhost:1334/app-abcd.js''"
    by (simp add: served_def)
  have g6: "fetch_text ?F ''http://localhost:1334/app-abcd.js'' = Inr no_from_js"
    by (simp add: served_def fetch_text_def)
  have g7: "search False from_re no_from_js = None"
    by (simp add: no_from_js_def from_re_def lits_def quotes_def white_space_def keep_def)
  have a: "fst (resolveMainModule ?E) = Inl (JsError ''import failed'')"
    using resolveMainModule_rethrows_when_not_found [OF h1 h2 h3] h4 by simp
  have b: "fst (resolveMainModule ?F) = Inl (JsError ''import failed'')"
    using resolveMainModule_rethrows_when_not_found [OF g1 g2 g3] g4 g5 g6 g7 by simp
  from h1 h4 a g4 g7 b show ?thesis by blast
qed

text \<open>
  C8. The first effect of the resolver is always the import of \<^verbatim>\<open>'../../..'\<close>, three
  levels above the module; when that import succeeds the resolver returns its module
  and has done nothing else, so no fetch.
\<close>

theorem resolveMainModule_direct_import:
  "(\<exists>rest. snd (resolveMainModule E) = Import ''../../..'' # rest)
   \<and> (\<forall>m. dyn_import E ''../../..'' = Inr m \<longrightarrow>
         resolveMainModule E = (Inr m, [Import ''../../..'']))"
  by (simp add: resolveMainModule_def doing_def split: sum.splits)

theorem resolveMainModule_direct_import_witness:
  "dyn_import bundled ''../../..'' = Inr (Pkg 0)
   \<and> resolveMainModule bundled = (Inr (Pkg 0), [Import ''../../..''])"
proof -
  have a: "dyn_import bundled ''../../..'' = Inr (Pkg 0)"
    by (simp add: bundled_def)
  from resolveMainModule_direct_import [of bundled] a show ?thesis by simp
qed

section \<open>Properties of the worker side\<close>

subsection \<open>The resolver, one await at a time\<close>

lemma advance_done_stays:
  "advance E n st = (Done r, es) \<Longrightarrow> advance E (n + k) st = (Done r, es)"
proof (induction n arbitrary: st es)
  case 0
  then show ?case by simp
next
  case (Suc n)
  obtain p es0 where s: "resolver_step E st = (p, es0)" by (cases "resolver_step E st")
  show ?case
  proof (cases p)
    case (Done r')
    with s Suc.prems show ?thesis by simp
  next
    case (More st')
    obtain q es' where a: "advance E n st' = (q, es')" by (cases "advance E n st'")
    with s More Suc.prems have "q = Done r" and "es = es0 @ es'" by simp_all
    with a Suc.IH [of st' es'] s More show ?thesis by simp
  qed
qed

lemma advance_extends:
  "\<exists>more. snd (advance E (n + k) st) = snd (advance E n st) @ more"
proof (induction n arbitrary: st)
  case 0
  then show ?case by simp
next
  case (Suc n)
  obtain p es0 where s: "resolver_step E st = (p, es0)" by (cases "resolver_step E st")
  show ?case
  proof (cases p)
    case (Done r')
    with s show ?thesis by simp
  next
    case (More st')
    from Suc.IH [of st'] obtain more
      where "snd (advance E (n + k) st') = snd (advance E n st') @ more" by blast
    with s More show ?thesis by (simp add: split_beta)
  qed
qed

lemma resolver_step_fetching: "list_all fetching (snd (resolver_step E st))"
  by (cases st) (simp_all split: sum.splits option.splits)

lemma advance_fetching: "list_all fetching (snd (advance E n st))"
proof (induction n arbitrary: st)
  case 0
  then show ?case by simp
next
  case (Suc n)
  obtain p es0 where s: "resolver_step E st = (p, es0)" by (cases "resolver_step E st")
  with resolver_step_fetching [of E st] have f: "list_all fetching es0" by simp
  show ?case
  proof (cases p)
    case (Done r')
    with s f show ?thesis by simp
  next
    case (More st')
    with s f Suc.IH [of st'] show ?thesis by (simp add: split_beta)
  qed
qed

lemma fetching_plain:
  "list_all fetching es \<Longrightarrow>
     count_list es (PostMessage t d) = 0 \<and> StartWorker m r \<notin> set es \<and> InitSync m i \<notin> set es
     \<and> PostMessage t d \<notin> set es"
proof (induction es)
  case Nil
  then show ?case by simp
next
  case (Cons e es)
  then show ?case by (cases e) simp_all
qed

text \<open>
  Six settlements end the call in every case, and the stepwise run then has the result and
  the effects of \<open>resolveMainModule\<close>.
\<close>

lemma advance_six:
  "advance E 6 AwaitImport = (Done (fst (resolveMainModule E)), tl (snd (resolveMainModule E)))"
  by (simp add: eval_nat_numeral resolveMainModule_def scrape_def doing_def fetch_text_def
      split: sum.splits option.splits)

lemma resolveMainModule_head:
  "snd (resolveMainModule E) = Import ''../../..'' # tl (snd (resolveMainModule E))"
  by (simp add: resolveMainModule_def doing_def)

lemma advance_within:
  "(\<exists>more. snd (resolveMainModule E) = Import ''../../..'' # snd (advance E n AwaitImport) @ more)
   \<and> (\<forall>r es. advance E n AwaitImport = (Done r, es) \<longrightarrow>
         r = fst (resolveMainModule E) \<and> snd (resolveMainModule E) = Import ''../../..'' # es)"
proof -
  have six: "advance E (n + 6) AwaitImport
             = (Done (fst (resolveMainModule E)), tl (snd (resolveMainModule E)))"
    using advance_done_stays [OF advance_six, where k = n] by (simp add: add.commute)
  from advance_extends [of E n 6 AwaitImport] six
  obtain more where "tl (snd (resolveMainModule E)) = snd (advance E n AwaitImport) @ more"
    by auto
  with resolveMainModule_head [of E]
  have a: "\<exists>more. snd (resolveMainModule E) = Import ''../../..'' # snd (advance E n AwaitImport) @ more"
    by auto
  have b: "r = fst (resolveMainModule E) \<and> snd (resolveMainModule E) = Import ''../../..'' # es"
    if "advance E n AwaitImport = (Done r, es)" for r es
    using advance_done_stays [OF that, where k = 6] six resolveMainModule_head [of E] by simp
  from a b show ?thesis by blast
qed

subsection \<open>The worker under its events\<close>

lemma load_module_worker: "load_module (Name ''wasm_bindgen_worker'') = Inr loaded"
  by (simp add: load_module_def waitForMsgType_def loaded_def)

lemma load_module_other:
  "g \<noteq> Name ''wasm_bindgen_worker'' \<Longrightarrow>
     load_module g = (if g = Unbound then Inl (JsError ''ReferenceError: name is not defined'')
                      else Inr idle)"
  by (cases g) (simp_all add: load_module_def idle_def)

lemma worker_run_Nil: "worker_run E w [] = w"
  by (simp add: worker_run_def)

lemma worker_run_Cons: "worker_run E w (ev # evs) = worker_run E (worker_step E w ev) evs"
  by (simp add: worker_run_def)

lemma worker_step_deaf:
  "listeners w = [] \<Longrightarrow> (\<forall>d st. phase w \<noteq> Resolving d st) \<Longrightarrow>
     (\<forall>p. phase w \<noteq> AwaitingInit p) \<Longrightarrow> worker_step E w ev = w"
  by (cases ev; cases "phase w") (simp_all add: worker_step_def dispatch_def on_resolved_def)

lemma worker_run_deaf:
  "listeners w = [] \<Longrightarrow> (\<forall>d st. phase w \<noteq> Resolving d st) \<Longrightarrow>
     (\<forall>p. phase w \<noteq> AwaitingInit p) \<Longrightarrow> worker_run E w evs = w"
  by (induction evs) (simp_all add: worker_run_Nil worker_run_Cons worker_step_deaf)

lemma worker_run_idle: "worker_run E idle evs = idle"
  by (rule worker_run_deaf) (simp_all add: idle_def)

lemma bootstrap_deaf:
  "listeners w = [] \<Longrightarrow>
     listeners (bootstrap E d res w) = []
     \<and> (\<forall>d' st. phase (bootstrap E d res w) \<noteq> Resolving d' st)
     \<and> (\<forall>p. phase (bootstrap E d res w) \<noteq> AwaitingInit p)"
  by (simp add: bootstrap_def Let_def split: sum.splits data.splits outcome.splits)

lemma bootstrap_phase:
  "bootstrap E d res (w\<lparr>phase := ph, trace := t\<rparr>) = bootstrap E d res (w\<lparr>trace := t\<rparr>)"
  by (simp add: bootstrap_def Let_def split: sum.splits data.splits outcome.splits)

text \<open>
  While the call is under way no listener is left, so messages change nothing, and the
  state after any events is the one the number of settlements among them gives.
\<close>

lemma worker_run_resolving:
  "listeners w = [] \<Longrightarrow> phase w = Resolving d st \<Longrightarrow>
     worker_run E w evs =
       (case advance E (count_list evs Settled) st of
          (p, es) \<Rightarrow>
            (case p of
               More st' \<Rightarrow> w\<lparr>trace := trace w @ es, phase := Resolving d st'\<rparr>
             | Done res \<Rightarrow> bootstrap E d res (w\<lparr>trace := trace w @ es\<rparr>)))"
proof (induction evs arbitrary: w st)
  case Nil
  then show ?case by (simp add: worker_run_Nil)
next
  case (Cons ev evs)
  show ?case
  proof (cases ev)
    case (Message m)
    with Cons.prems have "worker_step E w ev = w"
      by (simp add: worker_step_def dispatch_def on_resolved_def)
    with Cons Message show ?thesis by (simp add: worker_run_Cons)
  next
    case Settled
    obtain p es0 where s: "resolver_step E st = (p, es0)" by (cases "resolver_step E st")
    show ?thesis
    proof (cases p)
      case (Done res)
      with s Cons.prems have t: "worker_step E w ev = bootstrap E d res (w\<lparr>trace := trace w @ es0\<rparr>)"
        by (simp add: worker_step_def Settled)
      from Cons.prems(1) have "listeners (w\<lparr>trace := trace w @ es0\<rparr>) = []" by simp
      from bootstrap_deaf [OF this, of E d res]
      have "worker_run E (bootstrap E d res (w\<lparr>trace := trace w @ es0\<rparr>)) evs
            = bootstrap E d res (w\<lparr>trace := trace w @ es0\<rparr>)"
        by (simp add: worker_run_deaf)
      with t s Done Settled show ?thesis by (simp add: worker_run_Cons)
    next
      case (More st')
      let ?w = "w\<lparr>trace := trace w @ es0, phase := Resolving d st'\<rparr>"
      from s More Cons.prems have t: "worker_step E w ev = ?w"
        by (simp add: worker_step_def Settled)
      have "listeners ?w = []" and "phase ?w = Resolving d st'"
        using Cons.prems(1) by simp_all
      from Cons.IH [OF this] t s More Settled show ?thesis
        by (simp add: worker_run_Cons split_beta bootstrap_phase split: progress.splits)
    qed
  qed
qed

lemma worker_run_loaded:
  "worker_run E loaded evs =
     (case after_init evs of
        None \<Rightarrow> loaded
      | Some (d, rest) \<Rightarrow> worker_run E (received d) rest)"
proof (induction evs)
  case Nil
  then show ?case by (simp add: worker_run_Nil)
next
  case (Cons ev evs)
  show ?case
  proof (cases ev)
    case (Message m)
    show ?thesis
    proof (cases "data_type m = Some ''wasm_bindgen_worker_init''")
      case True
      then have "worker_step E loaded ev = received m"
        by (simp add: Message worker_step_def dispatch_def onMsg_def on_resolved_def loaded_def
            received_def settled_def resolver_begin_def)
      with True Message show ?thesis by (simp add: worker_run_Cons)
    next
      case False
      then have "worker_step E loaded ev = loaded"
        by (simp add: Message worker_step_def dispatch_def onMsg_def on_resolved_def loaded_def
            settled_def)
      with False Message Cons show ?thesis by (simp add: worker_run_Cons)
    qed
  next
    case Settled
    then have "worker_step E loaded ev = loaded"
      by (simp add: worker_step_def loaded_def)
    with Settled Cons show ?thesis by (simp add: worker_run_Cons)
  qed
qed

lemma worker_run_summary:
  "worker_run E loaded evs =
     (case after_init evs of
        None \<Rightarrow> loaded
      | Some (d, rest) \<Rightarrow>
          (case advance E (count_list rest Settled) AwaitImport of
             (p, es) \<Rightarrow>
               (case p of
                  More st' \<Rightarrow> (received d)\<lparr>trace := trace (received d) @ es,
                                            phase := Resolving d st'\<rparr>
                | Done res \<Rightarrow> bootstrap E d res ((received d)\<lparr>trace := trace (received d) @ es\<rparr>))))"
proof (cases "after_init evs")
  case None
  then show ?thesis by (simp add: worker_run_loaded)
next
  case (Some a)
  obtain d rest where a: "a = (d, rest)" by (cases a)
  have "listeners (received d) = []" and "phase (received d) = Resolving d AwaitImport"
    by (simp_all add: received_def)
  from worker_run_resolving [OF this, of E rest] Some a show ?thesis
    by (simp add: worker_run_loaded)
qed

lemma after_init_type:
  "after_init evs = Some (d, rest) \<Longrightarrow> data_type d = Some ''wasm_bindgen_worker_init''"
  by (induction evs rule: after_init.induct) (auto split: if_splits)

lemma bootstrap_fields:
  assumes "data_type d = Some ''wasm_bindgen_worker_init''"
  shows "bootstrap E d res w =
     (case res of
        Inl x \<Rightarrow> w\<lparr>phase := Failed x\<rparr>
      | Inr m \<Rightarrow>
          (case initSync E m (init_field d) of
             Absent \<Rightarrow> w\<lparr>phase := Failed (JsError ''TypeError'')\<rparr>
           | Throws x \<Rightarrow> w\<lparr>trace := trace w @ [InitSync m (init_field d)], phase := Failed x\<rparr>
           | Normal \<Rightarrow>
               (case wbg_rayon_start_worker E m (receiver_field d) of
                  Absent \<Rightarrow>
                    w\<lparr>trace := trace w @
                         [InitSync m (init_field d),
                          PostMessage Self (Obj (Some ''wasm_bindgen_worker_ready'') None None)],
                      phase := Failed (JsError ''TypeError'')\<rparr>
                | Throws x \<Rightarrow>
                    w\<lparr>trace := trace w @
                         [InitSync m (init_field d),
                          PostMessage Self (Obj (Some ''wasm_bindgen_worker_ready'') None None),
                          StartWorker m (receiver_field d)],
                      phase := Failed x\<rparr>
                | Normal \<Rightarrow>
                    w\<lparr>trace := trace w @
                         [InitSync m (init_field d),
                          PostMessage Self (Obj (Some ''wasm_bindgen_worker_ready'') None None),
                          StartWorker m (receiver_field d)],
                      phase := Running m\<rparr>)))"
proof (cases d)
  case Nullish
  with assms show ?thesis by (simp add: data_type_def)
next
  case (Obj t i r)
  then show ?thesis
    by (simp add: bootstrap_def Let_def split: sum.splits outcome.splits)
qed

lemma worker_run_shape:
  "(trace (worker_run E loaded evs) = [AddListener Self 0 ''wasm_bindgen_worker_init'']
    \<and> phase (worker_run E loaded evs) = AwaitingInit 0)
   \<or> (\<exists>d es m fin. list_all fetching es
        \<and> trace (worker_run E loaded evs) =
            [AddListener Self 0 ''wasm_bindgen_worker_init'', RemoveListener Self 0, Resolve 0 d,
             Import ''../../..''] @ es @ fin
        \<and> (fin = [] \<or> fin = [InitSync m (init_field d)]
            \<or> fin = [InitSync m (init_field d),
                      PostMessage Self (Obj (Some ''wasm_bindgen_worker_ready'') None None)]
            \<or> fin = [InitSync m (init_field d),
                      PostMessage Self (Obj (Some ''wasm_bindgen_worker_ready'') None None),
                      StartWorker m (receiver_field d)])
        \<and> (\<forall>m'. phase (worker_run E loaded evs) = Running m' \<longrightarrow>
              m' = m \<and> fin = [InitSync m (init_field d),
                      PostMessage Self (Obj (Some ''wasm_bindgen_worker_ready'') None None),
                      StartWorker m (receiver_field d)]))"
proof (cases "after_init evs")
  case None
  then have "worker_run E loaded evs = loaded" by (simp add: worker_run_summary)
  then show ?thesis by (simp add: loaded_def)
next
  case (Some a)
  obtain d rest where a: "a = (d, rest)" by (cases a)
  from after_init_type [of evs d rest] Some a
  have ty: "data_type d = Some ''wasm_bindgen_worker_init''" by simp
  obtain p es where adv: "advance E (count_list rest Settled) AwaitImport = (p, es)"
    by (cases "advance E (count_list rest Settled) AwaitImport")
  from advance_fetching [of E "count_list rest Settled" AwaitImport] adv
  have f: "list_all fetching es" by simp
  let ?w = "worker_run E loaded evs"
  have "\<exists>m fin. trace ?w =
            [AddListener Self 0 ''wasm_bindgen_worker_init'', RemoveListener Self 0, Resolve 0 d,
             Import ''../../..''] @ es @ fin
        \<and> (fin = [] \<or> fin = [InitSync m (init_field d)]
            \<or> fin = [InitSync m (init_field d),
                      PostMessage Self (Obj (Some ''wasm_bindgen_worker_ready'') None None)]
            \<or> fin = [InitSync m (init_field d),
                      PostMessage Self (Obj (Some ''wasm_bindgen_worker_ready'') None None),
                      StartWorker m (receiver_field d)])
        \<and> (\<forall>m'. phase ?w = Running m' \<longrightarrow>
              m' = m \<and> fin = [InitSync m (init_field d),
                      PostMessage Self (Obj (Some ''wasm_bindgen_worker_ready'') None None),
                      StartWorker m (receiver_field d)])"
  proof (cases p)
    case (More st')
    with Some a adv have "?w = (received d)\<lparr>trace := trace (received d) @ es,
                                            phase := Resolving d st'\<rparr>"
      by (simp add: worker_run_summary)
    then show ?thesis by (simp add: received_def)
  next
    case (Done res)
    with Some a adv
    have run: "?w = bootstrap E d res ((received d)\<lparr>trace := trace (received d) @ es\<rparr>)"
      by (simp add: worker_run_summary)
    show ?thesis
    proof (cases res)
      case (Inl x)
      then show ?thesis by (simp add: run bootstrap_fields [OF ty] received_def)
    next
      case (Inr m)
      show ?thesis
      proof (cases "initSync E m (init_field d)")
        case Absent
        with Inr show ?thesis by (simp add: run bootstrap_fields [OF ty] received_def)
      next
        case (Throws x)
        with Inr show ?thesis
          by (intro exI [of _ m]) (simp add: run bootstrap_fields [OF ty] received_def)
      next
        case Normal
        with Inr show ?thesis
          by (intro exI [of _ m], cases "wbg_rayon_start_worker E m (receiver_field d)")
            (simp_all add: run bootstrap_fields [OF ty] received_def)
      qed
    qed
  qed
  with f show ?thesis by blast
qed

lemma trampoline_trace:
  "(after_init evs = None \<longrightarrow>
      trace (worker_run E loaded evs) = [AddListener Self 0 ''wasm_bindgen_worker_init'']
      \<and> phase (worker_run E loaded evs) = AwaitingInit 0)
   \<and> (\<forall>d rest p es. after_init evs = Some (d, rest)
          \<and> advance E (count_list rest Settled) AwaitImport = (p, es) \<longrightarrow>
        worker_run E loaded evs =
          (case p of
             More st \<Rightarrow> (received d)\<lparr>trace := trace (received d) @ es, phase := Resolving d st\<rparr>
           | Done res \<Rightarrow> bootstrap E d res ((received d)\<lparr>trace := trace (received d) @ es\<rparr>))
        \<and> data_type d = Some ''wasm_bindgen_worker_init'')"
proof (cases "after_init evs")
  case None
  then have "worker_run E loaded evs = loaded" by (simp add: worker_run_summary)
  with None show ?thesis by (simp add: loaded_def)
next
  case (Some a)
  obtain d rest where a: "a = (d, rest)" by (cases a)
  from after_init_type [of evs d rest] Some a
  have "data_type d = Some ''wasm_bindgen_worker_init''" by simp
  with Some a show ?thesis by (auto simp add: worker_run_summary)
qed

lemma trampoline_more:
  "after_init evs = Some (d, rest) \<Longrightarrow>
   advance E (count_list rest Settled) AwaitImport = (More st, es) \<Longrightarrow>
     worker_run E loaded evs =
       (received d)\<lparr>trace := trace (received d) @ es, phase := Resolving d st\<rparr>"
  using trampoline_trace [of evs E] by simp

lemma trampoline_done:
  "after_init evs = Some (d, rest) \<Longrightarrow>
   advance E (count_list rest Settled) AwaitImport = (Done res, es) \<Longrightarrow>
     worker_run E loaded evs =
       bootstrap E d res ((received d)\<lparr>trace := trace (received d) @ es\<rparr>)
     \<and> data_type d = Some ''wasm_bindgen_worker_init''"
  using trampoline_trace [of evs E] by simp

lemma trampoline_cases:
  "(after_init evs = None \<longrightarrow>
      trace (worker_run E loaded evs) = [AddListener Self 0 ''wasm_bindgen_worker_init'']
      \<and> phase (worker_run E loaded evs) = AwaitingInit 0)
   \<and> (\<forall>d rest st es. after_init evs = Some (d, rest)
          \<and> advance E (count_list rest Settled) AwaitImport = (More st, es) \<longrightarrow>
        trace (worker_run E loaded evs) =
          [AddListener Self 0 ''wasm_bindgen_worker_init'', RemoveListener Self 0, Resolve 0 d,
           Import ''../../..''] @ es
        \<and> phase (worker_run E loaded evs) = Resolving d st)
   \<and> (\<forall>d rest x es. after_init evs = Some (d, rest)
          \<and> advance E (count_list rest Settled) AwaitImport = (Done (Inl x), es) \<longrightarrow>
        trace (worker_run E loaded evs) =
          [AddListener Self 0 ''wasm_bindgen_worker_init'', RemoveListener Self 0, Resolve 0 d,
           Import ''../../..''] @ es
        \<and> phase (worker_run E loaded evs) = Failed x)
   \<and> (\<forall>d rest m es. after_init evs = Some (d, rest)
          \<and> advance E (count_list rest Settled) AwaitImport = (Done (Inr m), es)
          \<and> initSync E m (init_field d) = Absent \<longrightarrow>
        trace (worker_run E loaded evs) =
          [AddListener Self 0 ''wasm_bindgen_worker_init'', RemoveListener Self 0, Resolve 0 d,
           Import ''../../..''] @ es
        \<and> phase (worker_run E loaded evs) = Failed (JsError ''TypeError''))
   \<and> (\<forall>d rest m es x. after_init evs = Some (d, rest)
          \<and> advance E (count_list rest Settled) AwaitImport = (Done (Inr m), es)
          \<and> initSync E m (init_field d) = Throws x \<longrightarrow>
        trace (worker_run E loaded evs) =
          [AddListener Self 0 ''wasm_bindgen_worker_init'', RemoveListener Self 0, Resolve 0 d,
           Import ''../../..''] @ es @ [InitSync m (init_field d)]
        \<and> phase (worker_run E loaded evs) = Failed x)
   \<and> (\<forall>d rest m es. after_init evs = Some (d, rest)
          \<and> advance E (count_list rest Settled) AwaitImport = (Done (Inr m), es)
          \<and> initSync E m (init_field d) = Normal
          \<and> wbg_rayon_start_worker E m (receiver_field d) = Absent \<longrightarrow>
        trace (worker_run E loaded evs) =
          [AddListener Self 0 ''wasm_bindgen_worker_init'', RemoveListener Self 0, Resolve 0 d,
           Import ''../../..''] @ es
          @ [InitSync m (init_field d),
             PostMessage Self (Obj (Some ''wasm_bindgen_worker_ready'') None None)]
        \<and> phase (worker_run E loaded evs) = Failed (JsError ''TypeError''))
   \<and> (\<forall>d rest m es x. after_init evs = Some (d, rest)
          \<and> advance E (count_list rest Settled) AwaitImport = (Done (Inr m), es)
          \<and> initSync E m (init_field d) = Normal
          \<and> wbg_rayon_start_worker E m (receiver_field d) = Throws x \<longrightarrow>
        trace (worker_run E loaded evs) =
          [AddListener Self 0 ''wasm_bindgen_worker_init'', RemoveListener Self 0, Resolve 0 d,
           Import ''../../..''] @ es
          @ [InitSync m (init_field d),
             PostMessage Self (Obj (Some ''wasm_bindgen_worker_ready'') None None),
             StartWorker m (receiver_field d)]
        \<and> phase (worker_run E loaded evs) = Failed x)
   \<and> (\<forall>d rest m es. after_init evs = Some (d, rest)
          \<and> advance E (count_list rest Settled) AwaitImport = (Done (Inr m), es)
          \<and> initSync E m (init_field d) = Normal
          \<and> wbg_rayon_start_worker E m (receiver_field d) = Normal \<longrightarrow>
        trace (worker_run E loaded evs) =
          [AddListener Self 0 ''wasm_bindgen_worker_init'', RemoveListener Self 0, Resolve 0 d,
           Import ''../../..''] @ es
          @ [InitSync m (init_field d),
             PostMessage Self (Obj (Some ''wasm_bindgen_worker_ready'') None None),
             StartWorker m (receiver_field d)]
        \<and> phase (worker_run E loaded evs) = Running m)"
proof -
  have more: "trace (worker_run E loaded evs) =
          [AddListener Self 0 ''wasm_bindgen_worker_init'', RemoveListener Self 0, Resolve 0 d,
           Import ''../../..''] @ es
        \<and> phase (worker_run E loaded evs) = Resolving d st"
    if "after_init evs = Some (d, rest)"
      and "advance E (count_list rest Settled) AwaitImport = (More st, es)" for d rest st es
    by (simp add: trampoline_more [OF that] received_def)
  have ended: "worker_run E loaded evs =
       (case res of
        Inl x \<Rightarrow> \<lparr>listeners = [], fresh = 1,
                  trace = [AddListener Self 0 ''wasm_bindgen_worker_init'', RemoveListener Self 0,
                           Resolve 0 d, Import ''../../..''] @ es,
                  phase = Failed x\<rparr>
      | Inr m \<Rightarrow>
          (case initSync E m (init_field d) of
             Absent \<Rightarrow> \<lparr>listeners = [], fresh = 1,
                  trace = [AddListener Self 0 ''wasm_bindgen_worker_init'', RemoveListener Self 0,
                           Resolve 0 d, Import ''../../..''] @ es,
                  phase = Failed (JsError ''TypeError'')\<rparr>
           | Throws x \<Rightarrow> \<lparr>listeners = [], fresh = 1,
                  trace = [AddListener Self 0 ''wasm_bindgen_worker_init'', RemoveListener Self 0,
                           Resolve 0 d, Import ''../../..''] @ es @ [InitSync m (init_field d)],
                  phase = Failed x\<rparr>
           | Normal \<Rightarrow>
               (case wbg_rayon_start_worker E m (receiver_field d) of
                  Absent \<Rightarrow> \<lparr>listeners = [], fresh = 1,
                     trace = [AddListener Self 0 ''wasm_bindgen_worker_init'', RemoveListener Self 0,
                           Resolve 0 d, Import ''../../..''] @ es
                         @ [InitSync m (init_field d),
                          PostMessage Self (Obj (Some ''wasm_bindgen_worker_ready'') None None)],
                     phase = Failed (JsError ''TypeError'')\<rparr>
                | Throws x \<Rightarrow> \<lparr>listeners = [], fresh = 1,
                     trace = [AddListener Self 0 ''wasm_bindgen_worker_init'', RemoveListener Self 0,
                           Resolve 0 d, Import ''../../..''] @ es
                         @ [InitSync m (init_field d),
                          PostMessage Self (Obj (Some ''wasm_bindgen_worker_ready'') None None),
                          StartWorker m (receiver_field d)],
                     phase = Failed x\<rparr>
                | Normal \<Rightarrow> \<lparr>listeners = [], fresh = 1,
                     trace = [AddListener Self 0 ''wasm_bindgen_worker_init'', RemoveListener Self 0,
                           Resolve 0 d, Import ''../../..''] @ es
                         @ [InitSync m (init_field d),
                          PostMessage Self (Obj (Some ''wasm_bindgen_worker_ready'') None None),
                          StartWorker m (receiver_field d)],
                     phase = Running m\<rparr>)))"
    if a: "after_init evs = Some (d, rest)"
      and b: "advance E (count_list rest Settled) AwaitImport = (Done res, es)" for d rest res es
  proof -
    from trampoline_done [OF a b]
    have run: "worker_run E loaded evs =
         bootstrap E d res ((received d)\<lparr>trace := trace (received d) @ es\<rparr>)"
      and ty: "data_type d = Some ''wasm_bindgen_worker_init''" by simp_all
    show ?thesis
      unfolding run bootstrap_fields [OF ty]
      by (simp add: received_def split: sum.splits outcome.splits)
  qed
  have none: "after_init evs = None \<longrightarrow>
      trace (worker_run E loaded evs) = [AddListener Self 0 ''wasm_bindgen_worker_init'']
      \<and> phase (worker_run E loaded evs) = AwaitingInit 0"
    using trampoline_trace [of evs E] by blast
  show ?thesis
    using none more by (auto dest!: ended simp del: append.simps)
qed

lemma trampoline_ready:
  "count_list (trace (worker_run E loaded evs))
      (PostMessage Self (Obj (Some ''wasm_bindgen_worker_ready'') None None)) \<le> 1
   \<and> (\<forall>m r. StartWorker m r \<in> set (trace (worker_run E loaded evs)) \<longrightarrow>
         (\<exists>d es. r = receiver_field d \<and> list_all fetching es
            \<and> trace (worker_run E loaded evs) =
                [AddListener Self 0 ''wasm_bindgen_worker_init'', RemoveListener Self 0,
                 Resolve 0 d, Import ''../../..''] @ es
                @ [InitSync m (init_field d),
                   PostMessage Self (Obj (Some ''wasm_bindgen_worker_ready'') None None),
                   StartWorker m r]))
   \<and> (\<forall>m. phase (worker_run E loaded evs) = Running m \<longrightarrow>
         (\<exists>r. StartWorker m r \<in> set (trace (worker_run E loaded evs))))"
proof -
  let ?w = "worker_run E loaded evs"
  let ?R = "PostMessage Self (Obj (Some ''wasm_bindgen_worker_ready'') None None)"
  from worker_run_shape [of E evs]
  consider (waiting) "trace ?w = [AddListener Self 0 ''wasm_bindgen_worker_init'']"
      "phase ?w = AwaitingInit 0"
    | (started) d es m fin where "list_all fetching es"
      "trace ?w = [AddListener Self 0 ''wasm_bindgen_worker_init'', RemoveListener Self 0,
                   Resolve 0 d, Import ''../../..''] @ es @ fin"
      "fin = [] \<or> fin = [InitSync m (init_field d)]
         \<or> fin = [InitSync m (init_field d), ?R]
         \<or> fin = [InitSync m (init_field d), ?R, StartWorker m (receiver_field d)]"
      "\<forall>m'. phase ?w = Running m' \<longrightarrow>
          m' = m \<and> fin = [InitSync m (init_field d), ?R, StartWorker m (receiver_field d)]"
    by blast
  then show ?thesis
  proof cases
    case waiting
    then show ?thesis by simp
  next
    case started
    note plain = fetching_plain [OF started(1)]
    have c: "count_list (trace ?w) ?R \<le> 1"
      using started(3) plain [of Self "Obj (Some ''wasm_bindgen_worker_ready'') None None"]
      by (auto simp add: started(2))
    have s: "\<exists>d es. r' = receiver_field d \<and> list_all fetching es
            \<and> trace ?w =
                [AddListener Self 0 ''wasm_bindgen_worker_init'', RemoveListener Self 0,
                 Resolve 0 d, Import ''../../..''] @ es
                @ [InitSync m' (init_field d), ?R, StartWorker m' r']"
      if "StartWorker m' r' \<in> set (trace ?w)" for m' r'
    proof -
      from that started(3) plain [of _ _ m' r']
      have "fin = [InitSync m (init_field d), ?R, StartWorker m (receiver_field d)]"
        and "m' = m" and "r' = receiver_field d"
        by (auto simp add: started(2))
      with started(1) started(2) show ?thesis by blast
    qed
    have r: "\<exists>r. StartWorker m' r \<in> set (trace ?w)" if "phase ?w = Running m'" for m'
    proof -
      from that started(4)
      have "m' = m" and "fin = [InitSync m (init_field d), ?R, StartWorker m (receiver_field d)]"
        by simp_all
      then show ?thesis by (auto simp add: started(2))
    qed
    from c s r show ?thesis by blast
  qed
qed

text \<open>
  C5. In a worker loaded under the name \<^verbatim>\<open>wasm_bindgen_worker\<close>, whatever messages
  arrive and whenever the promises awaited by the module resolution settle, the trace is
  an initial part of one fixed sequence. The listener is registered. The first init
  message \<open>d\<close> deregisters it and resolves the waiter, and in the same task the
  resolution starts with the direct import. Each settlement then lets the resolution
  run to its next await; what it has done after \<open>n\<close> of them is an initial part of the
  effects of \<open>resolveMainModule\<close>, and when it ends it has its result and all its
  effects. Only then come \<^verbatim>\<open>initSync\<close> with the \<^verbatim>\<open>init\<close> of \<open>d\<close>, the ready message,
  and \<^verbatim>\<open>wbg_rayon_start_worker\<close> with the \<^verbatim>\<open>receiver\<close> of \<open>d\<close>, each only if the step
  before it did not throw. The ready message is posted at most once. Whenever the worker
  loop has been entered, the trace ends with \<^verbatim>\<open>initSync\<close>, the ready message and the
  entry into the loop, in this order, after the init message and the resolution; a worker
  that is running the loop has entered it that way.
\<close>

theorem trampoline_steps_in_order:
  assumes "load_module (Name ''wasm_bindgen_worker'') = Inr w0"
  shows
  "(after_init evs = None \<longrightarrow>
      trace (worker_run E w0 evs) = [AddListener Self 0 ''wasm_bindgen_worker_init'']
      \<and> phase (worker_run E w0 evs) = AwaitingInit 0)
   \<and> (\<forall>d rest st es. after_init evs = Some (d, rest)
          \<and> advance E (count_list rest Settled) AwaitImport = (More st, es) \<longrightarrow>
        trace (worker_run E w0 evs) =
          [AddListener Self 0 ''wasm_bindgen_worker_init'', RemoveListener Self 0, Resolve 0 d,
           Import ''../../..''] @ es
        \<and> phase (worker_run E w0 evs) = Resolving d st)
   \<and> (\<forall>d rest x es. after_init evs = Some (d, rest)
          \<and> advance E (count_list rest Settled) AwaitImport = (Done (Inl x), es) \<longrightarrow>
        trace (worker_run E w0 evs) =
          [AddListener Self 0 ''wasm_bindgen_worker_init'', RemoveListener Self 0, Resolve 0 d,
           Import ''../../..''] @ es
        \<and> phase (worker_run E w0 evs) = Failed x)
   \<and> (\<forall>d rest m es. after_init evs = Some (d, rest)
          \<and> advance E (count_list rest Settled) AwaitImport = (Done (Inr m), es)
          \<and> initSync E m (init_field d) = Absent \<longrightarrow>
        trace (worker_run E w0 evs) =
          [AddListener Self 0 ''wasm_bindgen_worker_init'', RemoveListener Self 0, Resolve 0 d,
           Import ''../../..''] @ es
        \<and> phase (worker_run E w0 evs) = Failed (JsError ''TypeError''))
   \<and> (\<forall>d rest m es x. after_init evs = Some (d, rest)
          \<and> advance E (count_list rest Settled) AwaitImport = (Done (Inr m), es)
          \<and> initSync E m (init_field d) = Throws x \<longrightarrow>
        trace (worker_run E w0 evs) =
          [AddListener Self 0 ''wasm_bindgen_worker_init'', RemoveListener Self 0, Resolve 0 d,
           Import ''../../..''] @ es @ [InitSync m (init_field d)]
        \<and> phase (worker_run E w0 evs) = Failed x)
   \<and> (\<forall>d rest m es. after_init evs = Some (d, rest)
          \<and> advance E (count_list rest Settled) AwaitImport = (Done (Inr m), es)
          \<and> initSync E m (init_field d) = Normal
          \<and> wbg_rayon_start_worker E m (receiver_field d) = Absent \<longrightarrow>
        trace (worker_run E w0 evs) =
          [AddListener Self 0 ''wasm_bindgen_worker_init'', RemoveListener Self 0, Resolve 0 d,
           Import ''../../..''] @ es
          @ [InitSync m (init_field d),
             PostMessage Self (Obj (Some ''wasm_bindgen_worker_ready'') None None)]
        \<and> phase (worker_run E w0 evs) = Failed (JsError ''TypeError''))
   \<and> (\<forall>d rest m es x. after_init evs = Some (d, rest)
          \<and> advance E (count_list rest Settled) AwaitImport = (Done (Inr m), es)
          \<and> initSync E m (init_field d) = Normal
          \<and> wbg_rayon_start_worker E m (receiver_field d) = Throws x \<longrightarrow>
        trace (worker_run E w0 evs) =
          [AddListener Self 0 ''wasm_bindgen_worker_init'', RemoveListener Self 0, Resolve 0 d,
           Import ''../../..''] @ es
          @ [InitSync m (init_field d),
             PostMessage Self (Obj (Some ''wasm_bindgen_worker_ready'') None None),
             StartWorker m (receiver_field d)]
        \<and> phase (worker_run E w0 evs) = Failed x)
   \<and> (\<forall>d rest m es. after_init evs = Some (d, rest)
          \<and> advance E (count_list rest Settled) AwaitImport = (Done (Inr m), es)
          \<and> initSync E m (init_field d) = Normal
          \<and> wbg_rayon_start_worker E m (receiver_field d) = Normal \<longrightarrow>
        trace (worker_run E w0 evs) =
          [AddListener Self 0 ''wasm_bindgen_worker_init'', RemoveListener Self 0, Resolve 0 d,
           Import ''../../..''] @ es
          @ [InitSync m (init_field d),
             PostMessage Self (Obj (Some ''wasm_bindgen_worker_ready'') None None),
             StartWorker m (receiver_field d)]
        \<and> phase (worker_run E w0 evs) = Running m)
   \<and> (\<forall>n. (\<exists>more. snd (resolveMainModule E)
                   = Import ''../../..'' # snd (advance E n AwaitImport) @ more)
          \<and> (\<forall>r es. advance E n AwaitImport = (Done r, es) \<longrightarrow>
                r = fst (resolveMainModule E)
                \<and> snd (resolveMainModule E) = Import ''../../..'' # es))
   \<and> count_list (trace (worker_run E w0 evs))
        (PostMessage Self (Obj (Some ''wasm_bindgen_worker_ready'') None None)) \<le> 1
   \<and> (\<forall>m r. StartWorker m r \<in> set (trace (worker_run E w0 evs)) \<longrightarrow>
         (\<exists>d es. r = receiver_field d \<and> list_all fetching es
            \<and> trace (worker_run E w0 evs) =
                [AddListener Self 0 ''wasm_bindgen_worker_init'', RemoveListener Self 0,
                 Resolve 0 d, Import ''../../..''] @ es
                @ [InitSync m (init_field d),
                   PostMessage Self (Obj (Some ''wasm_bindgen_worker_ready'') None None),
                   StartWorker m r]))
   \<and> (\<forall>m. phase (worker_run E w0 evs) = Running m \<longrightarrow>
         (\<exists>r. StartWorker m r \<in> set (trace (worker_run E w0 evs))))"
proof -
  from assms have w0: "w0 = loaded" by (simp add: load_module_worker)
  have within: "\<forall>n. (\<exists>more. snd (resolveMainModule E)
                   = Import ''../../..'' # snd (advance E n AwaitImport) @ more)
          \<and> (\<forall>r es. advance E n AwaitImport = (Done r, es) \<longrightarrow>
                r = fst (resolveMainModule E)
                \<and> snd (resolveMainModule E) = Import ''../../..'' # es)"
    using advance_within [of E] by blast
  show ?thesis
    unfolding w0
    using trampoline_cases [of evs E] within trampoline_ready [of E evs]
    by (elim conjE, intro conjI) assumption+
qed

lemma scrape_ignores_loop: "scrape (E\<lparr>wbg_rayon_start_worker := f\<rparr>) e = scrape E e"
  by (simp add: scrape_def fetch_text_def split: sum.splits option.splits)

lemma resolveMainModule_ignores_loop:
  "resolveMainModule (E\<lparr>wbg_rayon_start_worker := f\<rparr>) = resolveMainModule E"
  by (simp add: resolveMainModule_def scrape_ignores_loop split: sum.splits)

lemma served_advance:
  "advance (served src_first_page app_js) 6 AwaitImport =
     (Done (Inr (Pkg 1)),
      [Fetch ''http://localhost:1334/'', Fetch ''http://localhost:1334/app-abcd.js'',
       Import ''http://localhost:1334/chunk-123.js''])"
  by (simp add: advance_six served_resolves)

lemma no_loop_advance:
  "advance no_loop 6 AwaitImport =
     (Done (Inr (Pkg 1)),
      [Fetch ''http://localhost:1334/'', Fetch ''http://localhost:1334/app-abcd.js'',
       Import ''http://localhost:1334/chunk-123.js''])"
  by (simp add: advance_six no_loop_def resolveMainModule_ignores_loop served_resolves)

theorem trampoline_steps_in_order_witness:
  "load_module (Name ''wasm_bindgen_worker'') = Inr loaded
   \<and> after_init early_events = Some (init_example, [Message Nullish])
   \<and> advance (served src_first_page app_js) (count_list [Message Nullish] Settled) AwaitImport
        = (More AwaitImport, [])
   \<and> trace (worker_run (served src_first_page app_js) loaded early_events) =
        [AddListener Self 0 ''wasm_bindgen_worker_init'', RemoveListener Self 0,
         Resolve 0 init_example, Import ''../../..'']
   \<and> phase (worker_run (served src_first_page app_js) loaded early_events)
        = Resolving init_example AwaitImport
   \<and> after_init worker_events = Some (init_example, later_events)
   \<and> advance (served src_first_page app_js) (count_list later_events Settled) AwaitImport =
        (Done (Inr (Pkg 1)),
         [Fetch ''http://localhost:1334/'', Fetch ''http://localhost:1334/app-abcd.js'',
          Import ''http://localhost:1334/chunk-123.js''])
   \<and> initSync (served src_first_page app_js) (Pkg 1) (init_field init_example) = Normal
   \<and> wbg_rayon_start_worker (served src_first_page app_js) (Pkg 1)
        (receiver_field init_example) = Normal
   \<and> trace (worker_run (served src_first_page app_js) loaded worker_events) =
        [AddListener Self 0 ''wasm_bindgen_worker_init'', RemoveListener Self 0,
         Resolve 0 init_example,
         Import ''../../..'', Fetch ''http://localhost:1334/'',
         Fetch ''http://localhost:1334/app-abcd.js'', Import ''http://localhost:1334/chunk-123.js'',
         InitSync (Pkg 1) (Some (7, 8)),
         PostMessage Self (Obj (Some ''wasm_bindgen_worker_ready'') None None),
         StartWorker (Pkg 1) (Some 9)]
   \<and> phase (worker_run (served src_first_page app_js) loaded worker_events) = Running (Pkg 1)
   \<and> wbg_rayon_start_worker no_loop (Pkg 1) (receiver_field init_example) = Absent
   \<and> trace (worker_run no_loop loaded worker_events) =
        [AddListener Self 0 ''wasm_bindgen_worker_init'', RemoveListener Self 0,
         Resolve 0 init_example,
         Import ''../../..'', Fetch ''http://localhost:1334/'',
         Fetch ''http://localhost:1334/app-abcd.js'', Import ''http://localhost:1334/chunk-123.js'',
         InitSync (Pkg 1) (Some (7, 8)),
         PostMessage Self (Obj (Some ''wasm_bindgen_worker_ready'') None None)]
   \<and> phase (worker_run no_loop loaded worker_events) = Failed (JsError ''TypeError'')"
proof -
  let ?E = "served src_first_page app_js"
  have a0: "after_init early_events = Some (init_example, [Message Nullish])"
    by (simp add: early_events_def init_example_def data_type_def)
  have b0: "advance ?E (count_list [Message Nullish] Settled) AwaitImport = (More AwaitImport, [])"
    by simp
  have a: "after_init worker_events = Some (init_example, later_events)"
    by (simp add: worker_events_def later_events_def init_example_def data_type_def)
  have n: "count_list later_events Settled = 6"
    by (simp add: later_events_def)
  have b: "advance ?E (count_list later_events Settled) AwaitImport =
        (Done (Inr (Pkg 1)),
         [Fetch ''http://localhost:1334/'', Fetch ''http://localhost:1334/app-abcd.js'',
          Import ''http://localhost:1334/chunk-123.js''])"
    unfolding n by (rule served_advance)
  have b': "advance no_loop (count_list later_events Settled) AwaitImport =
        (Done (Inr (Pkg 1)),
         [Fetch ''http://localhost:1334/'', Fetch ''http://localhost:1334/app-abcd.js'',
          Import ''http://localhost:1334/chunk-123.js''])"
    unfolding n by (rule no_loop_advance)
  have c: "initSync ?E (Pkg 1) (init_field init_example) = Normal"
    and c': "initSync no_loop (Pkg 1) (init_field init_example) = Normal"
    by (simp_all add: served_def no_loop_def)
  have d: "wbg_rayon_start_worker ?E (Pkg 1) (receiver_field init_example) = Normal"
    by (simp add: served_def)
  have d': "wbg_rayon_start_worker no_loop (Pkg 1) (receiver_field init_example) = Absent"
    by (simp add: no_loop_def)
  note t0 = trampoline_steps_in_order [OF load_module_worker, of early_events ?E]
  note t1 = trampoline_steps_in_order [OF load_module_worker, of worker_events ?E]
  note t2 = trampoline_steps_in_order [OF load_module_worker, of worker_events no_loop]
  have r0: "trace (worker_run ?E loaded early_events) =
        [AddListener Self 0 ''wasm_bindgen_worker_init'', RemoveListener Self 0,
         Resolve 0 init_example, Import ''../../..'']
      \<and> phase (worker_run ?E loaded early_events) = Resolving init_example AwaitImport"
    using t0 a0 b0 by simp
  have r1: "trace (worker_run ?E loaded worker_events) =
        [AddListener Self 0 ''wasm_bindgen_worker_init'', RemoveListener Self 0,
         Resolve 0 init_example,
         Import ''../../..'', Fetch ''http://localhost:1334/'',
         Fetch ''http://localhost:1334/app-abcd.js'', Import ''http://localhost:1334/chunk-123.js'',
         InitSync (Pkg 1) (Some (7, 8)),
         PostMessage Self (Obj (Some ''wasm_bindgen_worker_ready'') None None),
         StartWorker (Pkg 1) (Some 9)]
      \<and> phase (worker_run ?E loaded worker_events) = Running (Pkg 1)"
    using t1 a b c d by (simp add: init_example_def)
  have r2: "trace (worker_run no_loop loaded worker_events) =
        [AddListener Self 0 ''wasm_bindgen_worker_init'', RemoveListener Self 0,
         Resolve 0 init_example,
         Import ''../../..'', Fetch ''http://localhost:1334/'',
         Fetch ''http://localhost:1334/app-abcd.js'', Import ''http://localhost:1334/chunk-123.js'',
         InitSync (Pkg 1) (Some (7, 8)),
         PostMessage Self (Obj (Some ''wasm_bindgen_worker_ready'') None None)]
      \<and> phase (worker_run no_loop loaded worker_events) = Failed (JsError ''TypeError'')"
    using t2 a b' c' d' by (simp add: init_example_def)
  from load_module_worker a0 b0 r0 a b c d r1 d' r2 show ?thesis by blast
qed

text \<open>
  C10. Loading the module registers the listener of the trampoline exactly when the
  global \<^verbatim>\<open>name\<close> is the string \<^verbatim>\<open>wasm_bindgen_worker\<close>. Under any other name the
  load either throws (\<^verbatim>\<open>name\<close> is not declared) or leaves a context with no listener
  and an empty trace, which no later event changes. Every worker that
  \<^verbatim>\<open>startWorkers\<close> creates is given exactly that name.
\<close>

theorem trampoline_iff_worker_name:
  "(\<forall>w. load_module g = Inr w \<longrightarrow>
        (listeners w \<noteq> [] \<longleftrightarrow> g = Name ''wasm_bindgen_worker'')
      \<and> (phase w \<noteq> Inert \<longleftrightarrow> g = Name ''wasm_bindgen_worker''))
   \<and> (g = Name ''wasm_bindgen_worker'' \<longrightarrow>
        load_module g =
          Inr \<lparr>listeners = [(Self, 0, ''wasm_bindgen_worker_init'')], fresh = 1,
               trace = [AddListener Self 0 ''wasm_bindgen_worker_init''],
               phase = AwaitingInit 0\<rparr>)
   \<and> (\<forall>x. load_module g = Inl x \<longrightarrow> g = Unbound)
   \<and> (\<forall>w. g \<noteq> Name ''wasm_bindgen_worker'' \<and> load_module g = Inr w \<longrightarrow>
        listeners w = [] \<and> trace w = [] \<and> phase w = Inert
      \<and> worker_run E w evs = w)
   \<and> map (\<lambda>w. snd (snd (snd w))) (workers (trace (host_run (startWorkers m mem b) hevs)))
       = replicate (numThreads b) ''wasm_bindgen_worker''"
proof (cases "g = Name ''wasm_bindgen_worker''")
  case True
  then show ?thesis
    using startWorkers_calls [of m mem b hevs]
    by (simp add: load_module_worker loaded_def comp_def map_replicate_const)
next
  case False
  from load_module_other [OF False] worker_run_idle [of E evs] False
  show ?thesis
    using startWorkers_calls [of m mem b hevs]
    by (auto simp add: idle_def comp_def map_replicate_const split: if_splits)
qed

theorem trampoline_iff_worker_name_witness:
  "Name [] \<noteq> Name ''wasm_bindgen_worker''
   \<and> load_module (Name []) = Inr idle
   \<and> listeners idle = [] \<and> trace idle = []
   \<and> worker_run (served src_first_page app_js) idle worker_events = idle
   \<and> load_module (Name ''wasm_bindgen_worker'') = Inr loaded
   \<and> listeners loaded \<noteq> []
   \<and> load_module Unbound = Inl (JsError ''ReferenceError: name is not defined'')
   \<and> map (\<lambda>w. snd (snd (snd w))) (workers (trace (host_run (startWorkers 7 8 two_threads) one_ready)))
       = [''wasm_bindgen_worker'', ''wasm_bindgen_worker'']"
proof -
  have a: "Name [] \<noteq> Name ''wasm_bindgen_worker''" by simp
  have b: "load_module (Name []) = Inr idle" by (simp add: load_module_def idle_def)
  have c: "load_module Unbound = Inl (JsError ''ReferenceError: name is not defined'')"
    by (simp add: load_module_def)
  have d: "listeners loaded \<noteq> []" by (simp add: loaded_def)
  have e: "replicate (numThreads two_threads) ''wasm_bindgen_worker''
         = [''wasm_bindgen_worker'', ''wasm_bindgen_worker'']"
    by (simp add: two_threads_def numeral_2_eq_2)
  from trampoline_iff_worker_name [of "Name []" "served src_first_page app_js" worker_events
      7 8 two_threads one_ready] a b c d e load_module_worker
  show ?thesis by (simp add: idle_def)
qed

end
